theory Spec2Isabelle
  imports Complex_Main "HOL-Library.Multiset"
begin

section \<open>Data model of \<open>parser.h\<close>\<close>

text \<open>
  The embedding follows \<open>QasmParserLib/src/parser.cpp\<close> on an LP64 platform:
  \<open>unsigned long\<close> and \<open>long long\<close> are 64 bits wide. Values of type
  \<open>unsigned long\<close> (line numbers, character positions, parameters) are natural numbers;
  the one place where the source can leave the range, the subtraction \<open>x - 1\<close> at
  \<open>x = 0\<close>, has its wrap-around written out in \<open>usub1\<close>. The \<open>long long\<close> raw
  parameter is an \<open>int\<close>, and its conversion to \<open>unsigned long\<close> is written with
  \<open>mod 2 ^ 64\<close>.

  A \<open>float\<close> is represented by the rational number it denotes. How a float is printed
  (\<open>fmt::format("{}", float)\<close> and \<open>std::to_string(float)\<close>) is not modelled: both
  printers are parameters of the embedding, collected in \<open>float_fmt\<close>.
\<close>

record QuantumOperator =
  index :: nat
  strRep :: string
  intOp :: "nat list list"
  coef :: rat
  param :: nat

record Parser =
  numberQubits :: nat
  mup :: string
  operators :: "QuantumOperator list"
  openmp :: bool

record float_fmt =
  fmt_float :: "rat \<Rightarrow> string"
  to_string :: "rat \<Rightarrow> string"

text \<open>
  How a run ends without a result: \<open>printError\<close> writes the line number and the message to
  \<open>stderr\<close> and calls \<open>std::exit(EXIT_FAILURE)\<close>; \<open>parseOpToQasm\<close> calls
  \<open>std::exit(EXIT_FAILURE)\<close> in the \<open>default\<close> branch of its \<open>switch\<close>; reading
  \<open>intOp[k]\<close> beyond the end of the vector has no defined behaviour.
\<close>

datatype failure = Exit nat string | ExitFailure | OutOfRange

definition printError :: "string \<Rightarrow> nat \<Rightarrow> failure" where
  "printError errMessage idx = Exit idx errMessage"

definition ULONG_MAX :: nat where
  "ULONG_MAX = 2 ^ 64 - 1"

definition usub1 :: "nat \<Rightarrow> nat" where
  \<comment> \<open>\<open>x - 1\<close> on \<open>unsigned long\<close>\<close>
  "usub1 x = (if x = 0 then ULONG_MAX else x - 1)"

text \<open>Decimal text of an unsigned integer, as \<open>fmt::format("{}", n)\<close> prints it.\<close>

fun dec :: "nat \<Rightarrow> string" where
  "dec n = (if n < 10 then [''0123456789'' ! n]
            else dec (n div 10) @ [''0123456789'' ! (n mod 10)])"

declare dec.simps [simp del]

section \<open>\<open>parseStrInt\<close>\<close>

fun scanChars :: "string \<Rightarrow> nat \<Rightarrow> nat list \<Rightarrow> nat list \<Rightarrow> nat list
    \<Rightarrow> string + nat list list" where
  "scanChars [] d xVec yVec zVec = Inr [xVec, yVec, zVec]"
| "scanChars (ch # rest) d xVec yVec zVec =
     (if ch = CHR ''I'' then scanChars rest (d + 1) xVec yVec zVec
      else if ch = CHR ''X'' then scanChars rest (d + 1) (xVec @ [d + 1]) yVec zVec
      else if ch = CHR ''Y'' then scanChars rest (d + 1) xVec (yVec @ [d + 1]) zVec
      else if ch = CHR ''Z'' then scanChars rest (d + 1) xVec yVec (zVec @ [d + 1])
      else Inl ''Unsupported character instruction!'')"

definition parseStrInt :: "string \<Rightarrow> string + nat list list" where
  \<comment> \<open>\<open>d\<close> is \<open>std::distance(in.begin(), ch)\<close>; \<open>Inl\<close> is the \<open>std::invalid_argument\<close> thrown\<close>
  "parseStrInt inp = scanChars inp 0 [] [] []"

section \<open>\<open>parseOpToQasm\<close>\<close>

definition maxElem :: "nat list \<Rightarrow> nat" where
  \<comment> \<open>\<open>v.empty() ? 0 : *std::max_element(v.begin(), v.end())\<close>\<close>
  "maxElem v = (if v = [] then 0 else Max (set v))"

definition cxLine :: "nat \<Rightarrow> nat \<Rightarrow> string" where
  "cxLine qubitIdx lastUsed =
     ''cx q['' @ dec (usub1 qubitIdx) @ ''], q['' @ dec (usub1 lastUsed) @ ''];\<newline>''"

text \<open>
  The three inner loops work on the variables \<open>qasmOp\<close>, \<open>beforeLast\<close> and
  \<open>afterLast\<close>, in this order in the state triple. \<open>s.insert(0, t)\<close> is \<open>t @ s\<close> and
  \<open>s += t\<close> is \<open>s @ t\<close>.
\<close>

type_synonym opState = "string \<times> string \<times> string"

fun xLoop :: "nat \<Rightarrow> nat list \<Rightarrow> opState \<Rightarrow> opState" where
  "xLoop lastUsed [] st = st"
| "xLoop lastUsed (qubitIdx # vec) (qasmOp, beforeLast, afterLast) =
     (let before = ''ry(pi/2) q['' @ dec (usub1 qubitIdx) @ ''];\<newline>'';
          after = ''ry(-pi/2) q['' @ dec (usub1 qubitIdx) @ ''];\<newline>''
      in if qubitIdx = lastUsed then xLoop lastUsed vec (qasmOp, before, after)
         else let before' = before @ cxLine qubitIdx lastUsed;
                  after' = cxLine qubitIdx lastUsed @ after
              in xLoop lastUsed vec (before' @ qasmOp @ after', beforeLast, afterLast))"

fun yLoop :: "nat \<Rightarrow> nat list \<Rightarrow> opState \<Rightarrow> opState" where
  "yLoop lastUsed [] st = st"
| "yLoop lastUsed (qubitIdx # vec) (qasmOp, beforeLast, afterLast) =
     (let before = ''rx(-pi/2) q['' @ dec (usub1 qubitIdx) @ ''];\<newline>'';
          after = ''rx(pi/2) q['' @ dec (usub1 qubitIdx) @ ''];\<newline>''
      in if qubitIdx = lastUsed then yLoop lastUsed vec (qasmOp, before, after)
         else let before' = before @ cxLine qubitIdx lastUsed;
                  after' = cxLine qubitIdx lastUsed @ after
              in yLoop lastUsed vec (before' @ qasmOp @ after', beforeLast, afterLast))"

fun zLoop :: "nat \<Rightarrow> nat list \<Rightarrow> opState \<Rightarrow> opState" where
  "zLoop lastUsed [] st = st"
| "zLoop lastUsed (qubitIdx # vec) (qasmOp, beforeLast, afterLast) =
     (if qubitIdx \<noteq> lastUsed
      then let before = cxLine qubitIdx lastUsed;
               after = cxLine qubitIdx lastUsed
           in zLoop lastUsed vec (before @ qasmOp @ after, beforeLast, afterLast)
      else zLoop lastUsed vec (qasmOp, beforeLast, afterLast))"

fun findPos :: "'a list \<Rightarrow> 'a \<Rightarrow> nat" where
  \<comment> \<open>\<open>std::distance(v.begin(), std::find(v.begin(), v.end(), x))\<close>\<close>
  "findPos [] x = 0"
| "findPos (y # ys) x = (if y = x then 0 else Suc (findPos ys x))"

fun vecLoop :: "nat list list \<Rightarrow> nat \<Rightarrow> nat list list \<Rightarrow> opState \<Rightarrow> failure + opState" where
  \<comment> \<open>\<open>for (const auto& vec : qop.intOp) switch (position of the first vector equal to vec)\<close>\<close>
  "vecLoop intOp' lastUsed [] st = Inr st"
| "vecLoop intOp' lastUsed (vec # rest) st =
     (let k = findPos intOp' vec
      in if k = 0 then vecLoop intOp' lastUsed rest (xLoop lastUsed vec st)
         else if k = 1 then vecLoop intOp' lastUsed rest (yLoop lastUsed vec st)
         else if k = 2 then vecLoop intOp' lastUsed rest (zLoop lastUsed vec st)
         else Inl ExitFailure)"

definition parseOpToQasm :: "float_fmt \<Rightarrow> Parser \<Rightarrow> QuantumOperator \<Rightarrow> failure + string" where
  "parseOpToQasm F p qop =
     (if length (intOp qop) < 3 then Inl OutOfRange
      else let lastUsed = max (maxElem (intOp qop ! 0))
                            (max (maxElem (intOp qop ! 1)) (maxElem (intOp qop ! 2)));
               qasmOp = ''rz('' @ mup p @ fmt_float F (coef qop) @ ''*$['' @ dec (param qop)
                          @ '']) q['' @ dec (usub1 lastUsed) @ ''];\<newline>''
           in case vecLoop (intOp qop) lastUsed (intOp qop) (qasmOp, [], []) of
                Inl e \<Rightarrow> Inl e
              | Inr (qasmOp', beforeLast, afterLast) \<Rightarrow>
                  Inr (''\<newline>// New operator from line '' @ dec (index qop) @ ''\<newline>''
                       @ (beforeLast @ qasmOp' @ afterLast)))"

section \<open>\<open>errorCheck\<close> and \<open>readLines\<close>\<close>

text \<open>
  \<open>Inl msg\<close> is \<open>throw std::invalid_argument(msg)\<close>. The last comparison is between a
  \<open>long long\<close> and an \<open>unsigned long\<close> of the same width, so the usual arithmetic
  conversions turn \<open>param\<close> into an unsigned 64-bit value first.
\<close>

definition errorCheck :: "Parser \<Rightarrow> string \<Rightarrow> rat \<Rightarrow> int \<Rightarrow> string + unit" where
  "errorCheck p str coef' param' =
     (if str = [] then Inl ''No operator provided!''
      else if length str \<noteq> numberQubits p
        then Inl ''Non-matching length of string representation!''
      else if coef' = 0 then Inl ''Zero coefficient!''
      else if param' < 0 then Inl ''Negative parameter!''
      else if param' mod 2 ^ 64 > int ULONG_MAX then Inl ''Parameter out of bound!''
      else Inr ())"

text \<open>
  A line of the input file, as the formatted extraction
  \<open>is >> strRep >> coef >> checkParam\<close> sees it: the first whitespace-delimited field
  (empty when the line has none), the \<open>float\<close> read from the second field (\<open>None\<close> when
  that extraction fails) and the integer that the third field denotes (\<open>None\<close> when the
  field is no integer). Extraction into a \<open>long long\<close> sets \<open>failbit\<close> when the
  integer is outside the range of the type.
\<close>

record rawLine =
  strField :: string
  coefField :: "rat option"
  paramField :: "int option"

definition extractLine :: "rawLine \<Rightarrow> (string \<times> rat \<times> int) option" where
  "extractLine line =
     (if strField line = [] then None
      else case coefField line of
             None \<Rightarrow> None
           | Some c \<Rightarrow>
               (case paramField line of
                  None \<Rightarrow> None
                | Some r \<Rightarrow>
                    if r < - (2 ^ 63) \<or> 2 ^ 63 - 1 < r then None
                    else Some (strField line, c, r)))"

fun readLoop :: "rawLine list \<Rightarrow> nat \<Rightarrow> Parser \<Rightarrow> failure + Parser" where
  "readLoop [] lineIdx p = Inr p"
| "readLoop (line # rest) lineIdx0 p =
     (let lineIdx = lineIdx0 + 1
      in case extractLine line of
           None \<Rightarrow> Inl (printError ''Wrong format!'' lineIdx)
         | Some (strRep', coef', checkParam) \<Rightarrow>
             (let p1 = (if lineIdx = 1 then p\<lparr>numberQubits := length strRep'\<rparr> else p)
              in case errorCheck p1 strRep' coef' checkParam of
                   Inl msg \<Rightarrow> Inl (printError msg lineIdx)
                 | Inr u \<Rightarrow>
                     (let param0 = nat (checkParam mod 2 ^ 64);
                          param' = (if param0 = 0 then lineIdx else param0);
                          qop = \<lparr>index = lineIdx, strRep = strRep', intOp = [],
                                 coef = coef', param = param'\<rparr>
                      in readLoop rest lineIdx (p1\<lparr>operators := operators p1 @ [qop]\<rparr>))))"

definition readLines :: "rawLine list \<Rightarrow> Parser \<Rightarrow> failure + Parser" where
  \<comment> \<open>a file that cannot be opened is read as a file without lines\<close>
  "readLines inFile p = readLoop inFile 0 p"

section \<open>\<open>parseCircuitSeq\<close> and \<open>parseCircuit\<close>\<close>

text \<open>
  \<open>std::map<unsigned long, std::string>\<close> is an association list with ascending keys;
  \<open>mapAssign k v m\<close> is \<open>m[k] = v\<close>, and iterating over the map walks the list.
\<close>

type_synonym qasmMap = "(nat \<times> string) list"

fun mapAssign :: "nat \<Rightarrow> string \<Rightarrow> qasmMap \<Rightarrow> qasmMap" where
  "mapAssign k v [] = [(k, v)]"
| "mapAssign k v ((k', v') # m) =
     (if k < k' then (k, v) # (k', v') # m
      else if k = k' then (k, v) # m
      else (k', v') # mapAssign k v m)"

text \<open>
  The parallel loops (\<open>std::for_each\<close> with \<open>std::execution::par\<close>, and the OpenMP
  \<open>parallel for\<close>) run one worker per operator. A worker either ends the process in
  \<open>printError\<close> or stores its block under a lock, so a run is determined by the order in which
  the workers get there: \<open>forEachOp\<close> takes the operators in that order.
\<close>

fun forEachOp :: "float_fmt \<Rightarrow> Parser \<Rightarrow> QuantumOperator list \<Rightarrow> qasmMap
    \<Rightarrow> failure + qasmMap" where
  "forEachOp F p [] qasmOperators = Inr qasmOperators"
| "forEachOp F p (op # rest) qasmOperators =
     (case parseStrInt (strRep op) of
        Inl msg \<Rightarrow> Inl (printError msg (index op))
      | Inr iop \<Rightarrow>
          (case parseOpToQasm F p (op\<lparr>intOp := iop\<rparr>) of
             Inl e \<Rightarrow> Inl e
           | Inr qasmOp \<Rightarrow> forEachOp F p rest (mapAssign (index op) qasmOp qasmOperators)))"

definition version3Header :: "nat \<Rightarrow> string" where
  "version3Header n =
     ''OPENQASM 3.0;\<newline>include '' @ [CHR 0x22] @ ''stdgates.inc'' @ [CHR 0x22] @ '';\<newline>''
     @ ''qubit['' @ dec n @ ''] q;\<newline>'' @ ''bit['' @ dec n @ ''] c;\<newline>''"

definition version2Header :: "nat \<Rightarrow> string" where
  "version2Header n =
     ''OPENQASM 2.0;\<newline>include '' @ [CHR 0x22] @ ''qelib1.inc'' @ [CHR 0x22] @ '';\<newline>''
     @ ''qreg q['' @ dec n @ ''];\<newline>'' @ ''creg c['' @ dec n @ ''];\<newline>''"

fun appendOps :: "string \<Rightarrow> qasmMap \<Rightarrow> string" where
  \<comment> \<open>\<open>for (const auto& [idx, op] : qasmOperators) qasm += op;\<close>\<close>
  "appendOps qasm [] = qasm"
| "appendOps qasm ((idx, op) # m) = appendOps (qasm @ op) m"

definition newParser :: "nat \<times> bool \<Rightarrow> Parser" where
  \<comment> \<open>\<open>Parser p;\<close> leaves \<open>numberQubits\<close> and \<open>openmp\<close> uninitialised\<close>
  "newParser junk = \<lparr>numberQubits = fst junk, mup = ''0.5*'', operators = [], openmp = snd junk\<rparr>"

text \<open>
  The arguments that the source does not have: the float printers \<open>F\<close>, the order
  \<open>sched\<close> in which the workers finish (a rearrangement of the operators) and the
  indeterminate values \<open>junk\<close> of the uninitialised members. \<open>inFile\<close> is the contents of
  the input file. \<open>outFile\<close> is \<open>None\<close> without an \<open>outFilename\<close> and \<open>Some b\<close> with
  one, where \<open>b\<close> tells whether the output file could be opened. The result is the returned
  string.
\<close>

definition parseCircuitSeq :: "float_fmt \<Rightarrow> (QuantumOperator list \<Rightarrow> QuantumOperator list)
    \<Rightarrow> nat \<times> bool \<Rightarrow> rawLine list \<Rightarrow> int \<Rightarrow> bool option \<Rightarrow> rat option \<Rightarrow> failure + string" where
  "parseCircuitSeq F sched junk inFile version outFile multiplier =
     (let parser0 = newParser junk;
          parser1 = (case multiplier of
                       Some m \<Rightarrow> parser0\<lparr>mup := to_string F m @ ''*''\<rparr>
                     | None \<Rightarrow> parser0)
      in case readLines inFile parser1 of
           Inl e \<Rightarrow> Inl e
         | Inr parser \<Rightarrow>
             (case forEachOp F parser (sched (operators parser)) [] of
                Inl e \<Rightarrow> Inl e
              | Inr qasmOperators \<Rightarrow>
                  (let qasm = (if version = 3 then version3Header (numberQubits parser)
                               else version2Header (numberQubits parser))
                   in case outFile of
                        None \<Rightarrow> Inr (appendOps qasm qasmOperators)
                      | Some isOpen \<Rightarrow>
                          if isOpen then Inr (appendOps qasm qasmOperators) else Inr qasm)))"

definition parseCircuit :: "float_fmt \<Rightarrow> (QuantumOperator list \<Rightarrow> QuantumOperator list)
    \<Rightarrow> nat \<times> bool \<Rightarrow> rawLine list \<Rightarrow> bool \<Rightarrow> int \<Rightarrow> bool option \<Rightarrow> rat option
    \<Rightarrow> failure + string" where
  "parseCircuit F sched junk inFile useOpenMP version outFile multiplier =
     (let p0 = (newParser junk)\<lparr>openmp := useOpenMP\<rparr>;
          p1 = (case multiplier of
                  Some m \<Rightarrow> p0\<lparr>mup := to_string F m @ ''*''\<rparr>
                | None \<Rightarrow> p0)
      in case readLines inFile p1 of
           Inl e \<Rightarrow> Inl e
         | Inr p \<Rightarrow>
             (case (if useOpenMP then forEachOp F p (sched (operators p)) []
                    else forEachOp F p (sched (operators p)) []) of
                Inl e \<Rightarrow> Inl e
              | Inr qasmOperators \<Rightarrow>
                  (let qasm0 = (if version = 3 then version3Header (numberQubits p)
                                else version2Header (numberQubits p));
                       qasm = appendOps qasm0 qasmOperators
                   in case outFile of
                        None \<Rightarrow> Inr (appendOps qasm qasmOperators)
                      | Some isOpen \<Rightarrow>
                          if isOpen then Inr (appendOps qasm qasmOperators) else Inr qasm)))"

section \<open>The block of a term, as a list of instructions\<close>

text \<open>
  The structure that the specification gives to a block: a comment, then layers wrapped
  around the central rotation. Qubit numbers in an instruction are the ones printed
  (zero-based).
\<close>

datatype instr =
    Comment nat
  | Rz string string nat nat
  | RyPos nat | RyNeg nat
  | RxNeg nat | RxPos nat
  | Cx nat nat

fun render :: "instr \<Rightarrow> string" where
  "render (Comment k) = ''\<newline>// New operator from line '' @ dec k @ ''\<newline>''"
| "render (Rz m c g q) = ''rz('' @ m @ c @ ''*$['' @ dec g @ '']) q['' @ dec q @ ''];\<newline>''"
| "render (RyPos q) = ''ry(pi/2) q['' @ dec q @ ''];\<newline>''"
| "render (RyNeg q) = ''ry(-pi/2) q['' @ dec q @ ''];\<newline>''"
| "render (RxNeg q) = ''rx(-pi/2) q['' @ dec q @ ''];\<newline>''"
| "render (RxPos q) = ''rx(pi/2) q['' @ dec q @ ''];\<newline>''"
| "render (Cx c t) = ''cx q['' @ dec c @ ''], q['' @ dec t @ ''];\<newline>''"

definition renderAll :: "instr list \<Rightarrow> string" where
  "renderAll is = concat (map render is)"

datatype axis = AxisX | AxisY | AxisZ

fun layerBefore :: "nat \<Rightarrow> axis \<times> nat \<Rightarrow> instr list" where
  "layerBefore pivot (AxisX, q) = [RyPos (usub1 q), Cx (usub1 q) (usub1 pivot)]"
| "layerBefore pivot (AxisY, q) = [RxNeg (usub1 q), Cx (usub1 q) (usub1 pivot)]"
| "layerBefore pivot (AxisZ, q) = [Cx (usub1 q) (usub1 pivot)]"

fun layerAfter :: "nat \<Rightarrow> axis \<times> nat \<Rightarrow> instr list" where
  "layerAfter pivot (AxisX, q) = [Cx (usub1 q) (usub1 pivot), RyNeg (usub1 q)]"
| "layerAfter pivot (AxisY, q) = [Cx (usub1 q) (usub1 pivot), RxPos (usub1 q)]"
| "layerAfter pivot (AxisZ, q) = [Cx (usub1 q) (usub1 pivot)]"

definition wrapLayer :: "nat \<Rightarrow> axis \<times> nat \<Rightarrow> instr list \<Rightarrow> instr list" where
  "wrapLayer pivot l acc = layerBefore pivot l @ acc @ layerAfter pivot l"

definition nonPivotLayers :: "nat \<Rightarrow> nat list \<Rightarrow> nat list \<Rightarrow> nat list \<Rightarrow> (axis \<times> nat) list" where
  "nonPivotLayers pivot xs ys zs =
     map (Pair AxisX) (filter (\<lambda>q. q \<noteq> pivot) xs)
     @ map (Pair AxisY) (filter (\<lambda>q. q \<noteq> pivot) ys)
     @ map (Pair AxisZ) (filter (\<lambda>q. q \<noteq> pivot) zs)"

definition pivotBefore :: "nat \<Rightarrow> nat list \<Rightarrow> nat list \<Rightarrow> instr list" where
  "pivotBefore pivot xs ys =
     (if pivot \<in> set ys then [RxNeg (usub1 pivot)]
      else if pivot \<in> set xs then [RyPos (usub1 pivot)] else [])"

definition pivotAfter :: "nat \<Rightarrow> nat list \<Rightarrow> nat list \<Rightarrow> instr list" where
  "pivotAfter pivot xs ys =
     (if pivot \<in> set ys then [RxPos (usub1 pivot)]
      else if pivot \<in> set xs then [RyNeg (usub1 pivot)] else [])"

definition specBlock :: "string \<Rightarrow> string \<Rightarrow> nat \<Rightarrow> nat \<Rightarrow> nat
    \<Rightarrow> nat list \<Rightarrow> nat list \<Rightarrow> nat list \<Rightarrow> instr list" where
  "specBlock m c g line pivot xs ys zs =
     Comment line
     # pivotBefore pivot xs ys
     @ fold (wrapLayer pivot) (nonPivotLayers pivot xs ys zs) [Rz m c g (usub1 pivot)]
     @ pivotAfter pivot xs ys"

definition termInstrs :: "float_fmt \<Rightarrow> Parser \<Rightarrow> QuantumOperator \<Rightarrow> instr list" where
  "termInstrs F p qop =
     specBlock (mup p) (fmt_float F (coef qop)) (param qop) (index qop)
       (maxElem (concat (intOp qop))) (intOp qop ! 0) (intOp qop ! 1) (intOp qop ! 2)"

text \<open>
  Float printers for the examples: a float with a natural number as its value is printed as
  \<open>fmt\<close> prints it (\<open>2\<close> for \<open>2.0f\<close>) and as \<open>std::to_string\<close> prints it
  (\<open>2.000000\<close>).
\<close>

definition natPrinters :: float_fmt where
  "natPrinters = \<lparr>fmt_float = (\<lambda>r. dec (nat \<lfloor>r\<rfloor>)), to_string = (\<lambda>r. dec (nat \<lfloor>r\<rfloor>) @ ''.000000'')\<rparr>"

section \<open>Notions of the specification\<close>

text \<open>The 1-based positions of a character in a string, in ascending order.\<close>

definition positions :: "char \<Rightarrow> string \<Rightarrow> nat list" where
  "positions c s = map Suc (filter (\<lambda>i. s ! i = c) [0..<length s])"

definition pauliChars :: "char set" where
  "pauliChars = {CHR ''I'', CHR ''X'', CHR ''Y'', CHR ''Z''}"

text \<open>
  The Term that line \<open>k\<close> is loaded into, from the three extracted fields: a raw
  parameter \<open>0\<close> becomes the line number.
\<close>

definition termOfLine :: "nat \<Rightarrow> string \<times> rat \<times> int \<Rightarrow> QuantumOperator" where
  "termOfLine k t =
     (case t of (s, c, r) \<Rightarrow>
        \<lparr>index = k, strRep = s, intOp = [], coef = c, param = (if r = 0 then k else nat r)\<rparr>)"

fun isRz :: "instr \<Rightarrow> bool" where
  "isRz (Rz m c g q) = True"
| "isRz i = False"

text \<open>
  The CompiledBlock text of a loaded term: the rendering of its instructions, with the
  position lists of its basis string.
\<close>

definition blockOf :: "float_fmt \<Rightarrow> Parser \<Rightarrow> QuantumOperator \<Rightarrow> string" where
  "blockOf F p op =
     renderAll (termInstrs F p
       (op\<lparr>intOp := [positions (CHR ''X'') (strRep op), positions (CHR ''Y'') (strRep op),
                     positions (CHR ''Z'') (strRep op)]\<rparr>))"

section \<open>Properties of \<open>parseStrInt\<close>\<close>

lemma positions_Nil: "positions c [] = []"
  by (simp add: positions_def)

lemma filter_upt_Suc:
  "filter P [0..<Suc n] = (if P 0 then [0] else []) @ map Suc (filter (P \<circ> Suc) [0..<n])"
proof -
  have "[0..<Suc n] = 0 # map Suc [0..<n]"
    by (simp add: upt_conv_Cons map_Suc_upt del: upt_Suc)
  then show ?thesis
    by (simp add: filter_map del: upt_Suc)
qed

lemma positions_Cons:
  "positions c (ch # rest) = (if ch = c then [1] else []) @ map Suc (positions c rest)"
  unfolding positions_def
  by (simp add: filter_upt_Suc comp_def del: upt_Suc)

lemma scanChars_pauli:
  "set s \<subseteq> pauliChars \<Longrightarrow>
   scanChars s d xVec yVec zVec =
     Inr [xVec @ map (\<lambda>i. i + d) (positions (CHR ''X'') s),
          yVec @ map (\<lambda>i. i + d) (positions (CHR ''Y'') s),
          zVec @ map (\<lambda>i. i + d) (positions (CHR ''Z'') s)]"
proof (induction s arbitrary: d xVec yVec zVec)
  case Nil
  then show ?case by (simp add: positions_Nil)
next
  case (Cons ch rest)
  from Cons.prems have rest: "set rest \<subseteq> pauliChars" and ch: "ch \<in> pauliChars"
    by simp_all
  note IH = Cons.IH [OF rest]
  from ch consider "ch = CHR ''I''" | "ch = CHR ''X''" | "ch = CHR ''Y''" | "ch = CHR ''Z''"
    unfolding pauliChars_def by blast
  then show ?case
    by cases (simp_all add: IH positions_Cons comp_def)
qed

lemma scanChars_unsupported:
  "\<not> set s \<subseteq> pauliChars \<Longrightarrow>
   scanChars s d xVec yVec zVec = Inl ''Unsupported character instruction!''"
proof (induction s arbitrary: d xVec yVec zVec)
  case Nil
  then show ?case by simp
next
  case (Cons ch rest)
  show ?case
  proof (cases "ch \<in> pauliChars")
    case True
    with Cons.prems have "\<not> set rest \<subseteq> pauliChars" by simp
    from Cons.IH [OF this] True show ?thesis
      by (auto simp: pauliChars_def)
  next
    case False
    then show ?thesis by (simp add: pauliChars_def)
  qed
qed

lemma positions_strict: "sorted_wrt (<) (positions c s)"
  unfolding positions_def
  by (simp add: sorted_wrt_map sorted_wrt_filter strict_sorted_iff[symmetric] del: upt_Suc) 

lemma positions_member: "i \<in> set (positions c s) \<longleftrightarrow> 1 \<le> i \<and> i \<le> length s \<and> s ! (i - 1) = c"
  unfolding positions_def by (auto simp: image_iff Suc_le_eq intro: exI[of _ "i - 1"])

text \<open>
  Claim C4. For a basis string over \<open>I\<close>, \<open>X\<close>, \<open>Y\<close>, \<open>Z\<close>, \<open>parseStrInt\<close> returns
  exactly three lists: the 1-based positions of the \<open>X\<close>, of the \<open>Y\<close> and of the
  \<open>Z\<close> characters, each strictly ascending (\<open>I\<close> is in none of them, since a position
  is listed under the character it holds). For a string with any other character it throws
  \<open>std::invalid_argument\<close> instead of returning.
\<close>

theorem parseStrInt_decomposes:
  "(set s \<subseteq> pauliChars \<longrightarrow>
      parseStrInt s = Inr [positions (CHR ''X'') s, positions (CHR ''Y'') s, positions (CHR ''Z'') s]
      \<and> sorted_wrt (<) (positions (CHR ''X'') s)
      \<and> sorted_wrt (<) (positions (CHR ''Y'') s)
      \<and> sorted_wrt (<) (positions (CHR ''Z'') s))
   \<and> (\<not> set s \<subseteq> pauliChars \<longrightarrow>
      parseStrInt s = Inl ''Unsupported character instruction!'')"
proof -
  show ?thesis
    using scanChars_pauli [of s 0 "[]" "[]" "[]"] scanChars_unsupported [of s 0 "[]" "[]" "[]"]
    by (simp add: parseStrInt_def positions_strict)
qed

theorem parseStrInt_decomposes_witness:
  "parseStrInt ''XIZYX'' = Inr [ [1, 5], [4], [3]]
   \<and> parseStrInt ''XAZ'' = Inl ''Unsupported character instruction!''"
  using parseStrInt_decomposes [of "''XIZYX''"] parseStrInt_decomposes [of "''XAZ''"]
  by (simp add: pauliChars_def positions_def)

section \<open>The text of a block is the rendering of its instructions\<close>

lemma renderAll_Nil: "renderAll [] = []"
  by (simp add: renderAll_def)

lemma renderAll_Cons: "renderAll (i # is) = render i @ renderAll is"
  by (simp add: renderAll_def)

lemma renderAll_append: "renderAll (is @ js) = renderAll is @ renderAll js"
  by (simp add: renderAll_def)

lemma fold_wrapLayer:
  "fold (wrapLayer L) ls acc =
     concat (map (layerBefore L) (rev ls)) @ acc @ concat (map (layerAfter L) ls)"
  by (induction ls arbitrary: acc) (simp_all add: wrapLayer_def)

lemma xLoop_text:
  "xLoop L xs (qasmOp, bl, al) =
     (renderAll (concat (map (layerBefore L) (rev (map (Pair AxisX) (filter (\<lambda>q. q \<noteq> L) xs)))))
        @ qasmOp
        @ renderAll (concat (map (layerAfter L) (map (Pair AxisX) (filter (\<lambda>q. q \<noteq> L) xs)))),
      if L \<in> set xs then render (RyPos (usub1 L)) else bl,
      if L \<in> set xs then render (RyNeg (usub1 L)) else al)"
proof (induction xs arbitrary: qasmOp bl al)
  case Nil
  show ?case by (simp add: renderAll_Nil)
next
  case (Cons q xs)
  show ?case
    by (simp add: Cons.IH Let_def renderAll_append renderAll_Cons renderAll_Nil cxLine_def)
qed

lemma yLoop_text:
  "yLoop L ys (qasmOp, bl, al) =
     (renderAll (concat (map (layerBefore L) (rev (map (Pair AxisY) (filter (\<lambda>q. q \<noteq> L) ys)))))
        @ qasmOp
        @ renderAll (concat (map (layerAfter L) (map (Pair AxisY) (filter (\<lambda>q. q \<noteq> L) ys)))),
      if L \<in> set ys then render (RxNeg (usub1 L)) else bl,
      if L \<in> set ys then render (RxPos (usub1 L)) else al)"
proof (induction ys arbitrary: qasmOp bl al)
  case Nil
  show ?case by (simp add: renderAll_Nil)
next
  case (Cons q ys)
  show ?case
    by (simp add: Cons.IH Let_def renderAll_append renderAll_Cons renderAll_Nil cxLine_def)
qed

lemma zLoop_text:
  "zLoop L zs (qasmOp, bl, al) =
     (renderAll (concat (map (layerBefore L) (rev (map (Pair AxisZ) (filter (\<lambda>q. q \<noteq> L) zs)))))
        @ qasmOp
        @ renderAll (concat (map (layerAfter L) (map (Pair AxisZ) (filter (\<lambda>q. q \<noteq> L) zs)))),
      bl, al)"
proof (induction zs arbitrary: qasmOp bl al)
  case Nil
  show ?case by (simp add: renderAll_Nil)
next
  case (Cons q zs)
  show ?case
    by (simp add: Cons.IH Let_def renderAll_append renderAll_Cons renderAll_Nil cxLine_def)
qed

lemma vecLoop_three:
  assumes "set xs \<inter> set ys = {}" "set xs \<inter> set zs = {}" "set ys \<inter> set zs = {}"
  shows "vecLoop [xs, ys, zs] L [xs, ys, zs] st = Inr (zLoop L zs (yLoop L ys (xLoop L xs st)))"
proof -
  have xy: "ys = []" if "xs = ys" using that assms(1) by auto
  have xz: "zs = []" if "xs = zs" using that assms(2) by auto
  have yz: "zs = []" if "ys = zs" using that assms(3) by auto
  show ?thesis
    using xy xz yz by (auto simp: Let_def)
qed

lemma maxElem_append: "maxElem (xs @ ys) = max (maxElem xs) (maxElem ys)"
  by (auto simp: maxElem_def Max_Un max_def)

lemma parseOpToQasm_three:
  assumes "set xs \<inter> set ys = {}" "set xs \<inter> set zs = {}" "set ys \<inter> set zs = {}"
  shows "parseOpToQasm F p (qop\<lparr>intOp := [xs, ys, zs]\<rparr>) =
           Inr (renderAll (termInstrs F p (qop\<lparr>intOp := [xs, ys, zs]\<rparr>)))"
proof -
  let ?L = "max (maxElem xs) (max (maxElem ys) (maxElem zs))"
  let ?lx = "map (Pair AxisX) (filter (\<lambda>q. q \<noteq> ?L) xs)"
  let ?ly = "map (Pair AxisY) (filter (\<lambda>q. q \<noteq> ?L) ys)"
  let ?lz = "map (Pair AxisZ) (filter (\<lambda>q. q \<noteq> ?L) zs)"
  have L: "maxElem (concat [xs, ys, zs]) = ?L"
    by (simp add: maxElem_append)
  have layers: "nonPivotLayers ?L xs ys zs = ?lx @ ?ly @ ?lz"
    by (simp add: nonPivotLayers_def)
  have loops: "zLoop ?L zs (yLoop ?L ys (xLoop ?L xs (q0, [], []))) =
      (renderAll (concat (map (layerBefore ?L) (rev (?lx @ ?ly @ ?lz)))) @ q0
         @ renderAll (concat (map (layerAfter ?L) (?lx @ ?ly @ ?lz))),
       renderAll (pivotBefore ?L xs ys), renderAll (pivotAfter ?L xs ys))" for q0
    unfolding xLoop_text yLoop_text zLoop_text
    by (simp add: renderAll_append pivotBefore_def pivotAfter_def renderAll_Cons renderAll_Nil)
  have len: "\<not> length (intOp (qop\<lparr>intOp := [xs, ys, zs]\<rparr>)) < 3"
    by simp
  have nth: "intOp (qop\<lparr>intOp := [xs, ys, zs]\<rparr>) ! 0 = xs"
    "intOp (qop\<lparr>intOp := [xs, ys, zs]\<rparr>) ! 1 = ys"
    "intOp (qop\<lparr>intOp := [xs, ys, zs]\<rparr>) ! 2 = zs"
    by simp_all
  have iop: "intOp (qop\<lparr>intOp := [xs, ys, zs]\<rparr>) = [xs, ys, zs]"
    by simp
  have spec: "renderAll (specBlock m c g k ?L xs ys zs) =
      render (Comment k) @ renderAll (pivotBefore ?L xs ys)
        @ (renderAll (concat (map (layerBefore ?L) (rev (?lx @ ?ly @ ?lz))))
            @ render (Rz m c g (usub1 ?L))
            @ renderAll (concat (map (layerAfter ?L) (?lx @ ?ly @ ?lz))))
        @ renderAll (pivotAfter ?L xs ys)" for m c g k
    unfolding specBlock_def layers fold_wrapLayer
    by (simp only: renderAll_append renderAll_Cons renderAll_Nil append_Nil2 append_assoc)
  have vec: "vecLoop [xs, ys, zs] ?L [xs, ys, zs] (q0, [], []) =
      Inr (renderAll (concat (map (layerBefore ?L) (rev (?lx @ ?ly @ ?lz)))) @ q0
         @ renderAll (concat (map (layerAfter ?L) (?lx @ ?ly @ ?lz))),
       renderAll (pivotBefore ?L xs ys), renderAll (pivotAfter ?L xs ys))" for q0
    by (simp only: vecLoop_three [OF assms] loops)
  show ?thesis
    by (simp add: parseOpToQasm_def termInstrs_def Let_def maxElem_append spec vec
        del: vecLoop.simps)
qed

lemma positions_disjoint: "c \<noteq> c' \<Longrightarrow> set (positions c s) \<inter> set (positions c' s) = {}"
  by (auto simp: positions_member)

lemma parseStrInt_Inr:
  "parseStrInt s = Inr iop \<Longrightarrow>
     iop = [positions (CHR ''X'') s, positions (CHR ''Y'') s, positions (CHR ''Z'') s]"
  using scanChars_pauli [of s 0 "[]" "[]" "[]"] scanChars_unsupported [of s 0 "[]" "[]" "[]"]
  by (cases "set s \<subseteq> pauliChars") (simp_all add: parseStrInt_def)

lemma parseOpToQasm_term:
  assumes "parseStrInt s = Inr iop"
  shows "parseOpToQasm F p (qop\<lparr>intOp := iop\<rparr>) = Inr (renderAll (termInstrs F p (qop\<lparr>intOp := iop\<rparr>)))"
  unfolding parseStrInt_Inr [OF assms]
  by (rule parseOpToQasm_three) (simp_all add: positions_disjoint)

section \<open>Structure of a block\<close>

lemma maxElem_Max: "v \<noteq> [] \<Longrightarrow> maxElem v = Max (set v)"
  by (simp add: maxElem_def)

lemma maxElem_ge: "q \<in> set v \<Longrightarrow> q \<le> maxElem v"
  by (auto simp: maxElem_def)

lemma parseStrInt_positive:
  assumes "parseStrInt s = Inr iop" "q \<in> set (concat iop)"
  shows "1 \<le> q"
  using assms(2) unfolding parseStrInt_Inr [OF assms(1)]
  by (auto simp: positions_member)

lemma Cx_in_specBlock:
  assumes "Cx c t \<in> set (specBlock m cf g k L xs ys zs)"
  shows "\<exists>q \<in> set xs \<union> set ys \<union> set zs. q \<noteq> L \<and> c = usub1 q \<and> t = usub1 L"
  using assms
  unfolding specBlock_def fold_wrapLayer nonPivotLayers_def pivotBefore_def pivotAfter_def
  by (auto split: if_splits)

text \<open>
  Claim C2. For a term with at least one letter other than \<open>I\<close>, the pivot is the
  maximum of all positions in the X, Y and Z lists. The block is the comment line, then the
  pivot's own basis-change pair (when the pivot is in the X or the Y list) as the outermost
  wrap, around the layers of the other listed qubits: each layer (basis-change pair and
  CNOT pair for X and Y, CNOT pair alone for Z) wraps the instructions accumulated so far,
  the X list first in ascending order, then the Y list, then the Z list, starting from the
  central rotation.
\<close>

theorem block_nesting:
  assumes "parseStrInt (strRep qop) = Inr iop" and "concat iop \<noteq> []"
  shows "iop = [positions (CHR ''X'') (strRep qop), positions (CHR ''Y'') (strRep qop),
                positions (CHR ''Z'') (strRep qop)]
         \<and> parseOpToQasm F p (qop\<lparr>intOp := iop\<rparr>) =
             Inr (renderAll (specBlock (mup p) (fmt_float F (coef qop)) (param qop) (index qop)
                    (Max (set (concat iop))) (iop ! 0) (iop ! 1) (iop ! 2)))"
  using parseOpToQasm_term [OF assms(1), of F p qop] parseStrInt_Inr [OF assms(1)]
    maxElem_Max [OF assms(2)]
  by (simp add: termInstrs_def)

text \<open>
  Claim C10. The text of a block is the rendering of \<open>termInstrs\<close>, and every CNOT in
  it has a control different from its target: the target is the pivot minus one, and the
  control is a listed qubit other than the pivot, minus one.
\<close>

theorem cx_control_differs_from_target:
  assumes "parseStrInt (strRep qop) = Inr iop"
  shows "parseOpToQasm F p (qop\<lparr>intOp := iop\<rparr>) =
           Inr (renderAll (termInstrs F p (qop\<lparr>intOp := iop\<rparr>)))
         \<and> (\<forall>c t. Cx c t \<in> set (termInstrs F p (qop\<lparr>intOp := iop\<rparr>)) \<longrightarrow>
               c \<noteq> t \<and> t + 1 = maxElem (concat iop)
               \<and> c + 1 \<in> set (concat iop) \<and> c + 1 \<noteq> maxElem (concat iop))"
proof (intro conjI allI impI)
  show "parseOpToQasm F p (qop\<lparr>intOp := iop\<rparr>) =
          Inr (renderAll (termInstrs F p (qop\<lparr>intOp := iop\<rparr>)))"
    by (rule parseOpToQasm_term [OF assms])
next
  fix c t
  assume cx: "Cx c t \<in> set (termInstrs F p (qop\<lparr>intOp := iop\<rparr>))"
  let ?L = "maxElem (concat iop)"
  have iop: "iop = [iop ! 0, iop ! 1, iop ! 2]"
    using parseStrInt_Inr [OF assms] by (elim ssubst) simp
  from cx obtain q where q: "q \<in> set (iop ! 0) \<union> set (iop ! 1) \<union> set (iop ! 2)"
    and ne: "q \<noteq> ?L" and c: "c = usub1 q" and t: "t = usub1 ?L"
    unfolding termInstrs_def by (auto dest!: Cx_in_specBlock)
  from q have mem: "q \<in> set (concat iop)"
    by (subst iop) auto
  have q1: "1 \<le> q"
    by (rule parseStrInt_positive [OF assms mem])
  have "q \<le> ?L"
    by (rule maxElem_ge [OF mem])
  with q1 ne have "c + 1 = q" "t + 1 = ?L"
    by (simp_all add: c t usub1_def)
  with mem ne show "c \<noteq> t" "t + 1 = ?L" "c + 1 \<in> set (concat iop)" "c + 1 \<noteq> ?L"
    by auto
qed


lemma natPrinters_fmt_2: "fmt_float natPrinters 2 = ''2''"
  by (simp add: natPrinters_def dec.simps)

lemma natPrinters_fmt_1: "fmt_float natPrinters 1 = ''1''"
  by (simp add: natPrinters_def dec.simps)

lemma mup_newParser: "mup (newParser junk) = ''0.5*''"
  by (simp add: newParser_def)

theorem block_nesting_witness:
  "parseStrInt ''ZXY'' = Inr [ [2], [3], [1]]
   \<and> concat [ [2], [3], [1::nat]] \<noteq> []
   \<and> parseOpToQasm natPrinters (newParser (3, False))
         \<lparr>index = 1, strRep = ''ZXY'', intOp = [ [2], [3], [1]], coef = 2, param = 7\<rparr> =
       Inr (renderAll [Comment 1, RxNeg 2, Cx 0 2, RyPos 1, Cx 1 2, Rz ''0.5*'' ''2'' 7 2,
                       Cx 1 2, RyNeg 1, Cx 0 2, RxPos 2])
   \<and> renderAll [Comment 1, RxNeg 2, Cx 0 2, RyPos 1, Cx 1 2, Rz ''0.5*'' ''2'' 7 2,
                 Cx 1 2, RyNeg 1, Cx 0 2, RxPos 2] =
       ''\<newline>// New operator from line 1\<newline>rx(-pi/2) q[2];\<newline>cx q[0], q[2];\<newline>ry(pi/2) q[1];\<newline>cx q[1], q[2];\<newline>rz(0.5*2*$[7]) q[2];\<newline>cx q[1], q[2];\<newline>ry(-pi/2) q[1];\<newline>cx q[0], q[2];\<newline>rx(pi/2) q[2];\<newline>''"
proof -
  let ?qop = "\<lparr>index = 1, strRep = ''ZXY'', intOp = [], coef = 2, param = 7\<rparr>"
  have h: "parseStrInt (strRep ?qop) = Inr [ [2], [3], [1]]"
    by (simp add: parseStrInt_def)
  have ne: "concat [ [2], [3], [1::nat]] \<noteq> []"
    by simp
  have spec: "specBlock ''0.5*'' ''2'' 7 1 (Max (set (concat [ [2], [3], [1::nat]])))
                ([ [2], [3], [1]] ! 0) ([ [2], [3], [1]] ! 1) ([ [2], [3], [1]] ! 2) =
              [Comment 1, RxNeg 2, Cx 0 2, RyPos 1, Cx 1 2, Rz ''0.5*'' ''2'' 7 2,
               Cx 1 2, RyNeg 1, Cx 0 2, RxPos 2]"
    by (simp add: specBlock_def nonPivotLayers_def pivotBefore_def pivotAfter_def wrapLayer_def
        usub1_def)
  have run: "parseOpToQasm natPrinters (newParser (3, False)) (?qop\<lparr>intOp := [ [2], [3], [1]]\<rparr>) =
       Inr (renderAll [Comment 1, RxNeg 2, Cx 0 2, RyPos 1, Cx 1 2, Rz ''0.5*'' ''2'' 7 2,
                       Cx 1 2, RyNeg 1, Cx 0 2, RxPos 2])"
    using conjunct2 [OF block_nesting [OF h ne, of natPrinters "newParser (3, False)"]]
    by (simp only: spec natPrinters_fmt_2 mup_newParser QuantumOperator.simps)
  have rendered: "renderAll [Comment 1, RxNeg 2, Cx 0 2, RyPos 1, Cx 1 2, Rz ''0.5*'' ''2'' 7 2,
                 Cx 1 2, RyNeg 1, Cx 0 2, RxPos 2] =
       ''\<newline>// New operator from line 1\<newline>rx(-pi/2) q[2];\<newline>cx q[0], q[2];\<newline>ry(pi/2) q[1];\<newline>cx q[1], q[2];\<newline>rz(0.5*2*$[7]) q[2];\<newline>cx q[1], q[2];\<newline>ry(-pi/2) q[1];\<newline>cx q[0], q[2];\<newline>rx(pi/2) q[2];\<newline>''"
    by (simp add: renderAll_def dec.simps)
  from h ne run rendered show ?thesis
    by simp
qed

theorem cx_control_differs_from_target_witness:
  "parseStrInt ''YXIZ'' = Inr [ [2], [1], [4]]
   \<and> termInstrs natPrinters (newParser (4, False))
         \<lparr>index = 3, strRep = ''YXIZ'', intOp = [ [2], [1], [4]], coef = 2, param = 7\<rparr> =
       [Comment 3, RxNeg 0, Cx 0 3, RyPos 1, Cx 1 3, Rz ''0.5*'' ''2'' 7 3,
        Cx 1 3, RyNeg 1, Cx 0 3, RxPos 0]
   \<and> parseOpToQasm natPrinters (newParser (4, False))
         \<lparr>index = 3, strRep = ''YXIZ'', intOp = [ [2], [1], [4]], coef = 2, param = 7\<rparr> =
       Inr ''\<newline>// New operator from line 3\<newline>rx(-pi/2) q[0];\<newline>cx q[0], q[3];\<newline>ry(pi/2) q[1];\<newline>cx q[1], q[3];\<newline>rz(0.5*2*$[7]) q[3];\<newline>cx q[1], q[3];\<newline>ry(-pi/2) q[1];\<newline>cx q[0], q[3];\<newline>rx(pi/2) q[0];\<newline>''"
proof -
  let ?qop = "\<lparr>index = 3, strRep = ''YXIZ'', intOp = [], coef = 2, param = 7\<rparr>"
  have h: "parseStrInt (strRep ?qop) = Inr [ [2], [1], [4]]"
    by (simp add: parseStrInt_def)
  have t: "termInstrs natPrinters (newParser (4, False)) (?qop\<lparr>intOp := [ [2], [1], [4]]\<rparr>) =
       [Comment 3, RxNeg 0, Cx 0 3, RyPos 1, Cx 1 3, Rz ''0.5*'' ''2'' 7 3,
        Cx 1 3, RyNeg 1, Cx 0 3, RxPos 0]"
    by (simp add: termInstrs_def specBlock_def nonPivotLayers_def pivotBefore_def pivotAfter_def
        wrapLayer_def usub1_def natPrinters_fmt_2 mup_newParser maxElem_def)
  have run: "parseOpToQasm natPrinters (newParser (4, False)) (?qop\<lparr>intOp := [ [2], [1], [4]]\<rparr>) =
       Inr (renderAll [Comment 3, RxNeg 0, Cx 0 3, RyPos 1, Cx 1 3, Rz ''0.5*'' ''2'' 7 3,
        Cx 1 3, RyNeg 1, Cx 0 3, RxPos 0])"
    using conjunct1 [OF cx_control_differs_from_target [OF h, of natPrinters "newParser (4, False)"]]
    by (simp only: t)
  have rendered: "renderAll [Comment 3, RxNeg 0, Cx 0 3, RyPos 1, Cx 1 3, Rz ''0.5*'' ''2'' 7 3,
        Cx 1 3, RyNeg 1, Cx 0 3, RxPos 0] =
       ''\<newline>// New operator from line 3\<newline>rx(-pi/2) q[0];\<newline>cx q[0], q[3];\<newline>ry(pi/2) q[1];\<newline>cx q[1], q[3];\<newline>rz(0.5*2*$[7]) q[3];\<newline>cx q[1], q[3];\<newline>ry(-pi/2) q[1];\<newline>cx q[0], q[3];\<newline>rx(pi/2) q[0];\<newline>''"
    by (simp add: renderAll_def dec.simps)
  from h t run rendered show ?thesis
    by simp
qed

section \<open>Properties of \<open>readLines\<close>\<close>

lemma extractLine_Some:
  "extractLine l = Some (s, c, r) \<Longrightarrow>
     s = strField l \<and> s \<noteq> [] \<and> coefField l = Some c \<and> paramField l = Some r
     \<and> - (2 ^ 63) \<le> r \<and> r \<le> 2 ^ 63 - 1"
  by (auto simp: extractLine_def split: if_splits option.splits)

lemma errorCheck_Inr:
  "errorCheck p s c r = Inr u \<longleftrightarrow>
     s \<noteq> [] \<and> length s = numberQubits p \<and> c \<noteq> 0 \<and> 0 \<le> r
     \<and> \<not> r mod 2 ^ 64 > int ULONG_MAX"
  by (auto simp: errorCheck_def)

lemma readLoop_Cons_Inr:
  assumes "readLoop (l # rest) n p = Inr p'"
  shows "\<exists>s c r. extractLine l = Some (s, c, r) \<and> c \<noteq> 0 \<and> 0 \<le> r
          \<and> length s = (if n = 0 then length s else numberQubits p)
          \<and> readLoop rest (Suc n)
               (p\<lparr>numberQubits := (if n = 0 then length s else numberQubits p),
                  operators := operators p @ [termOfLine (Suc n) (s, c, r)]\<rparr>) = Inr p'"
proof -
  from assms obtain s c r where ex: "extractLine l = Some (s, c, r)"
    by (auto simp: Let_def split: option.splits)
  define p1 where "p1 = (if n = 0 then p\<lparr>numberQubits := length s\<rparr> else p)"
  from assms ex obtain u where chk: "errorCheck p1 s c r = Inr u"
    by (cases "errorCheck p1 s c r") (auto simp: Let_def p1_def)
  from chk have c: "c \<noteq> 0" and r: "0 \<le> r" and len: "length s = numberQubits p1"
    by (simp_all add: errorCheck_Inr)
  from extractLine_Some [OF ex] r have m: "r mod 18446744073709551616 = r"
    by simp
  have p1: "p1\<lparr>operators := operators p1 @ [termOfLine (Suc n) (s, c, r)]\<rparr> =
      p\<lparr>numberQubits := (if n = 0 then length s else numberQubits p),
        operators := operators p @ [termOfLine (Suc n) (s, c, r)]\<rparr>"
    by (simp add: p1_def)
  from assms ex chk r have "readLoop rest (Suc n)
      (p1\<lparr>operators := operators p1 @ [termOfLine (Suc n) (s, c, r)]\<rparr>) = Inr p'"
    by (auto simp: Let_def p1_def [symmetric] m termOfLine_def)
  with ex c r len show ?thesis
    unfolding p1 by (auto simp: p1_def)
qed

lemma readLoop_success:
  "readLoop lines n p = Inr p' \<Longrightarrow>
     operators p' = operators p
        @ map (\<lambda>(k, l). termOfLine (Suc k) (the (extractLine l))) (enumerate n lines)
     \<and> mup p' = mup p
     \<and> numberQubits p' =
         (if n = 0 \<and> lines \<noteq> [] then length (strField (hd lines)) else numberQubits p)
     \<and> (\<forall>l \<in> set lines. \<exists>s c r. extractLine l = Some (s, c, r) \<and> c \<noteq> 0 \<and> 0 \<le> r
            \<and> length s = numberQubits p')"
proof (induction lines arbitrary: n p)
  case Nil
  then show ?case by simp
next
  case (Cons l rest)
  from readLoop_Cons_Inr [OF Cons.prems] obtain s c r
    where ex: "extractLine l = Some (s, c, r)" and c: "c \<noteq> 0" and r: "0 \<le> r"
      and len: "length s = (if n = 0 then length s else numberQubits p)"
      and rest: "readLoop rest (Suc n)
               (p\<lparr>numberQubits := (if n = 0 then length s else numberQubits p),
                  operators := operators p @ [termOfLine (Suc n) (s, c, r)]\<rparr>) = Inr p'"
    by blast
  note IH = Cons.IH [OF rest]
  have s: "strField l = s"
    using extractLine_Some [OF ex] by simp
  from IH have nq: "numberQubits p' = (if n = 0 then length s else numberQubits p)"
    by simp
  show ?case
  proof (intro conjI)
    show "operators p' = operators p
        @ map (\<lambda>(k, l). termOfLine (Suc k) (the (extractLine l))) (enumerate n (l # rest))"
      using IH by (simp add: ex)
    show "mup p' = mup p"
      using IH by simp
    show "numberQubits p' =
         (if n = 0 \<and> l # rest \<noteq> [] then length (strField (hd (l # rest))) else numberQubits p)"
      using nq by (simp add: s)
    show "\<forall>l' \<in> set (l # rest). \<exists>s c r. extractLine l' = Some (s, c, r) \<and> c \<noteq> 0 \<and> 0 \<le> r
            \<and> length s = numberQubits p'"
      using IH ex c r len nq by auto
  qed
qed

lemma readLoop_append:
  "readLoop (a @ b) n p =
     (case readLoop a n p of Inl e \<Rightarrow> Inl e | Inr p1 \<Rightarrow> readLoop b (n + length a) p1)"
  by (induction a arbitrary: n p) (auto simp: Let_def split: option.splits sum.splits)

lemma errorCheck_never_out_of_bound: "errorCheck p s c r \<noteq> Inl ''Parameter out of bound!''"
proof -
  have "r mod 2 ^ 64 < 2 ^ 64"
    by simp
  then have "\<not> r mod 2 ^ 64 > int ULONG_MAX"
    by (simp add: ULONG_MAX_def)
  then show ?thesis
    by (simp add: errorCheck_def)
qed

lemma readLoop_never_out_of_bound:
  "readLoop inFile n p \<noteq> Inl (Exit k ''Parameter out of bound!'')"
proof (induction inFile arbitrary: n p)
  case Nil
  show ?case by simp
next
  case (Cons l rest)
  show ?case
    using Cons.IH errorCheck_never_out_of_bound
    by (auto simp: Let_def printError_def split: option.splits sum.splits)
qed

lemma readLines_mismatch:
  assumes "0 < k" and "k < length inFile" and "readLines (take k inFile) p0 = Inr p1"
    and "extractLine (inFile ! k) = Some (s, c, r)" and "length s \<noteq> numberQubits p1"
  shows "readLines inFile p0 =
           Inl (Exit (k + 1) ''Non-matching length of string representation!'')"
proof -
  have split: "inFile = take k inFile @ (inFile ! k) # drop (Suc k) inFile"
    using assms(2) by (simp add: id_take_nth_drop)
  have s: "s \<noteq> []"
    using extractLine_Some [OF assms(4)] by blast
  have "readLoop (take k inFile @ (inFile ! k) # drop (Suc k) inFile) 0 p0 =
      Inl (Exit (k + 1) ''Non-matching length of string representation!'')"
    unfolding readLoop_append
    using assms(1,2,3,4,5) s
    by (simp add: readLines_def Let_def errorCheck_def printError_def min_def)
  with split show ?thesis
    by (simp add: readLines_def)
qed

lemma readLines_negative:
  assumes "k < length inFile" and "readLines (take k inFile) p0 = Inr p1"
    and "extractLine (inFile ! k) = Some (s, c, r)" and "r < 0" and "c \<noteq> 0"
    and "length s = (if k = 0 then length s else numberQubits p1)"
  shows "readLines inFile p0 = Inl (Exit (k + 1) ''Negative parameter!'')"
proof -
  have split: "inFile = take k inFile @ (inFile ! k) # drop (Suc k) inFile"
    using assms(1) by (simp add: id_take_nth_drop)
  have s: "s \<noteq> []"
    using extractLine_Some [OF assms(3)] by blast
  have "readLoop (take k inFile @ (inFile ! k) # drop (Suc k) inFile) 0 p0 =
      Inl (Exit (k + 1) ''Negative parameter!'')"
    unfolding readLoop_append
    using assms s
    by (auto simp: readLines_def Let_def errorCheck_def printError_def min_def)
  with split show ?thesis
    by (simp add: readLines_def)
qed


section \<open>Loaded terms and the central rotation\<close>

lemma readLines_success:
  assumes "readLines inFile p0 = Inr p" and "operators p0 = []"
  shows "operators p = map (\<lambda>(k, l). termOfLine (Suc k) (the (extractLine l))) (enumerate 0 inFile)"
    and "mup p = mup p0"
    and "inFile \<noteq> [] \<Longrightarrow> numberQubits p = length (strField (hd inFile))"
    and "l \<in> set inFile \<Longrightarrow> \<exists>s c r. extractLine l = Some (s, c, r) \<and> c \<noteq> 0 \<and> 0 \<le> r
            \<and> length s = numberQubits p"
  using readLoop_success [OF assms(1) [unfolded readLines_def]] assms(2)
  by auto

lemma readLines_nth:
  assumes "readLines inFile p0 = Inr p" and "operators p0 = []" and "k < length inFile"
    and "extractLine (inFile ! k) = Some (s, c, r)"
  shows "operators p ! k = termOfLine (Suc k) (s, c, r)"
  using assms(3,4) unfolding readLines_success(1) [OF assms(1,2)]
  by (simp add: nth_enumerate_eq)

lemma noRz_layerBefore: "filter isRz (concat (map (layerBefore L) ls)) = []"
proof (induction ls)
  case Nil
  show ?case by simp
next
  case (Cons a ls)
  obtain ax q where a: "a = (ax, q)" by (cases a)
  from Cons show ?case by (cases ax) (simp_all add: a)
qed

lemma noRz_layerAfter: "filter isRz (concat (map (layerAfter L) ls)) = []"
proof (induction ls)
  case Nil
  show ?case by simp
next
  case (Cons a ls)
  obtain ax q where a: "a = (ax, q)" by (cases a)
  from Cons show ?case by (cases ax) (simp_all add: a)
qed

lemma filter_isRz_specBlock:
  "filter isRz (specBlock m c g k L xs ys zs) = [Rz m c g (usub1 L)]"
  unfolding specBlock_def fold_wrapLayer
  by (simp add: noRz_layerBefore noRz_layerAfter pivotBefore_def pivotAfter_def)

lemma maxElem_pred:
  assumes "parseStrInt s = Inr iop" and "concat iop \<noteq> []"
  shows "usub1 (maxElem (concat iop)) + 1 = Max (set (concat iop))"
proof -
  from assms(2) obtain q where q: "q \<in> set (concat iop)"
    by (cases "concat iop") auto
  from parseStrInt_positive [OF assms(1) q] maxElem_ge [OF q]
  have "1 \<le> maxElem (concat iop)" by simp
  then have "usub1 (maxElem (concat iop)) + 1 = maxElem (concat iop)"
    by (simp add: usub1_def)
  then show ?thesis
    by (simp only: maxElem_Max [OF assms(2)])
qed

text \<open>
  Claim C5. The term loaded from line \<open>k + 1\<close> has the raw parameter as its parameter,
  or the line number when the raw parameter is \<open>0\<close>. Its block has exactly one
  \<open>rz\<close> instruction: the angle text is the multiplier text of the parser, the printed
  coefficient, and \<open>*$[g]\<close> for that parameter \<open>g\<close> (see \<open>render\<close>), so that two
  records with the same nonzero raw parameter carry the same token. The rotation is on the
  pivot qubit, the maximum listed position minus one, when the term lists any position.
\<close>

theorem central_rotation:
  assumes "readLines inFile p0 = Inr p" and "operators p0 = []" and "k < length inFile"
    and "extractLine (inFile ! k) = Some (s, c, r)" and "parseStrInt s = Inr iop"
  shows "operators p ! k =
           \<lparr>index = k + 1, strRep = s, intOp = [], coef = c,
            param = (if r = 0 then k + 1 else nat r)\<rparr>
         \<and> parseOpToQasm F p ((operators p ! k)\<lparr>intOp := iop\<rparr>) =
             Inr (renderAll (termInstrs F p ((operators p ! k)\<lparr>intOp := iop\<rparr>)))
         \<and> filter isRz (termInstrs F p ((operators p ! k)\<lparr>intOp := iop\<rparr>)) =
             [Rz (mup p0) (fmt_float F c) (if r = 0 then k + 1 else nat r)
                (usub1 (maxElem (concat iop)))]
         \<and> (concat iop \<noteq> [] \<longrightarrow> usub1 (maxElem (concat iop)) + 1 = Max (set (concat iop)))"
proof -
  have op: "operators p ! k =
      \<lparr>index = k + 1, strRep = s, intOp = [], coef = c, param = (if r = 0 then k + 1 else nat r)\<rparr>"
    using readLines_nth [OF assms(1-4)] by (simp add: termOfLine_def)
  have s: "parseStrInt (strRep (operators p ! k)) = Inr iop"
    using assms(5) by (simp add: op)
  have "filter isRz (termInstrs F p ((operators p ! k)\<lparr>intOp := iop\<rparr>)) =
             [Rz (mup p0) (fmt_float F c) (if r = 0 then k + 1 else nat r)
                (usub1 (maxElem (concat iop)))]"
    unfolding termInstrs_def filter_isRz_specBlock
    by (simp add: op readLines_success(2) [OF assms(1,2)])
  with op parseOpToQasm_term [OF s, of F p "operators p ! k"] maxElem_pred [OF assms(5)]
  show ?thesis by blast
qed

theorem central_rotation_witness:
  "readLines [\<lparr>strField = ''XZ'', coefField = Some 1, paramField = Some 5\<rparr>,
              \<lparr>strField = ''YX'', coefField = Some 2, paramField = Some 0\<rparr>]
     (newParser (0, False)) =
     Inr \<lparr>numberQubits = 2, mup = ''0.5*'',
          operators = [\<lparr>index = 1, strRep = ''XZ'', intOp = [], coef = 1, param = 5\<rparr>,
                       \<lparr>index = 2, strRep = ''YX'', intOp = [], coef = 2, param = 2\<rparr>],
          openmp = False\<rparr>
   \<and> parseStrInt ''YX'' = Inr [ [2], [1], []]
   \<and> filter isRz (termInstrs natPrinters
         \<lparr>numberQubits = 2, mup = ''0.5*'',
          operators = [\<lparr>index = 1, strRep = ''XZ'', intOp = [], coef = 1, param = 5\<rparr>,
                       \<lparr>index = 2, strRep = ''YX'', intOp = [], coef = 2, param = 2\<rparr>],
          openmp = False\<rparr>
         \<lparr>index = 2, strRep = ''YX'', intOp = [ [2], [1], []], coef = 2, param = 2\<rparr>) =
       [Rz ''0.5*'' ''2'' 2 1]
   \<and> render (Rz ''0.5*'' ''2'' 2 1) = ''rz(0.5*2*$[2]) q[1];\<newline>''"
proof -
  let ?inFile = "[\<lparr>strField = ''XZ'', coefField = Some 1, paramField = Some 5\<rparr>,
                  \<lparr>strField = ''YX'', coefField = Some 2, paramField = Some 0\<rparr>]"
  let ?p = "\<lparr>numberQubits = 2, mup = ''0.5*'',
          operators = [\<lparr>index = 1, strRep = ''XZ'', intOp = [], coef = 1, param = 5\<rparr>,
                       \<lparr>index = 2, strRep = ''YX'', intOp = [], coef = 2, param = 2\<rparr>],
          openmp = False\<rparr>"
  have load: "readLines ?inFile (newParser (0, False)) = Inr ?p"
    by (simp add: readLines_def extractLine_def errorCheck_def ULONG_MAX_def newParser_def)
  have emp: "operators (newParser (0, False)) = []"
    by (simp add: newParser_def)
  have k: "(1::nat) < length ?inFile"
    by simp
  have ex: "extractLine (?inFile ! 1) = Some (''YX'', 2, 0)"
    by (simp add: extractLine_def)
  have dec: "parseStrInt ''YX'' = Inr [ [2], [1], []]"
    by (simp add: parseStrInt_def)
  from central_rotation [OF load emp k ex dec, of natPrinters]
  have "filter isRz (termInstrs natPrinters ?p ((operators ?p ! 1)\<lparr>intOp := [ [2], [1], []]\<rparr>)) =
      [Rz (mup (newParser (0, False))) (fmt_float natPrinters 2) (if (0::int) = 0 then 1 + 1 else nat 0)
         (usub1 (maxElem (concat [ [2], [1], []])))]"
    by blast
  then have "filter isRz (termInstrs natPrinters ?p
         \<lparr>index = 2, strRep = ''YX'', intOp = [ [2], [1], []], coef = 2, param = 2\<rparr>) =
       [Rz ''0.5*'' ''2'' 2 1]"
    by (simp add: usub1_def maxElem_def mup_newParser natPrinters_fmt_2)
  moreover have "render (Rz ''0.5*'' ''2'' 2 1) = ''rz(0.5*2*$[2]) q[1];\<newline>''"
    by (simp add: dec.simps)
  ultimately show ?thesis
    using load dec by simp
qed

section \<open>The parallel loop and the order of its workers\<close>

lemma parseStrInt_pauli:
  "set s \<subseteq> pauliChars \<Longrightarrow>
     parseStrInt s = Inr [positions (CHR ''X'') s, positions (CHR ''Y'') s, positions (CHR ''Z'') s]"
  using scanChars_pauli [of s 0 "[]" "[]" "[]"] by (simp add: parseStrInt_def)

lemma parseStrInt_unsupported:
  "\<not> set s \<subseteq> pauliChars \<Longrightarrow> parseStrInt s = Inl ''Unsupported character instruction!''"
  using scanChars_unsupported [of s 0 "[]" "[]" "[]"] by (simp add: parseStrInt_def)

lemma forEachOp_valid:
  "\<forall>op \<in> set ops. set (strRep op) \<subseteq> pauliChars \<Longrightarrow>
     forEachOp F p ops m = Inr (fold (\<lambda>op. mapAssign (index op) (blockOf F p op)) ops m)"
proof (induction ops arbitrary: m)
  case Nil
  show ?case by simp
next
  case (Cons op ops)
  from Cons.prems have s: "set (strRep op) \<subseteq> pauliChars"
    and rest: "\<forall>op \<in> set ops. set (strRep op) \<subseteq> pauliChars"
    by simp_all
  have dec: "parseStrInt (strRep op) =
      Inr [positions (CHR ''X'') (strRep op), positions (CHR ''Y'') (strRep op),
           positions (CHR ''Z'') (strRep op)]"
    by (rule parseStrInt_pauli [OF s])
  show ?case
    by (simp add: dec parseOpToQasm_term [OF dec] blockOf_def Cons.IH [OF rest])
qed

lemma forEachOp_invalid:
  "\<not> (\<forall>op \<in> set ops. set (strRep op) \<subseteq> pauliChars) \<Longrightarrow>
     \<exists>k. forEachOp F p ops m = Inl (Exit k ''Unsupported character instruction!'')"
proof (induction ops arbitrary: m)
  case Nil
  then show ?case by simp
next
  case (Cons op ops)
  show ?case
  proof (cases "set (strRep op) \<subseteq> pauliChars")
    case True
    with Cons.prems have "\<not> (\<forall>op \<in> set ops. set (strRep op) \<subseteq> pauliChars)"
      by simp
    from Cons.IH [OF this] show ?thesis
      by (simp add: parseStrInt_pauli [OF True] parseOpToQasm_term [OF parseStrInt_pauli [OF True]])
  next
    case False
    then show ?thesis
      by (simp add: parseStrInt_unsupported printError_def)
  qed
qed

lemma mapAssign_commute:
  "k \<noteq> k' \<Longrightarrow>
     mapAssign k v (mapAssign k' v' m) = mapAssign k' v' (mapAssign k v m)"
  by (induction m) auto

lemma fold_mapAssign_perm:
  assumes "mset ops' = mset ops" and "inj_on index (set ops)"
  shows "fold (\<lambda>op. mapAssign (index op) (g op)) ops' m = fold (\<lambda>op. mapAssign (index op) (g op)) ops m"
proof -
  have set: "set ops' = set ops"
    using assms(1) by (rule mset_eq_setD)
  have "fold (\<lambda>op. mapAssign (index op) (g op)) ops' = fold (\<lambda>op. mapAssign (index op) (g op)) ops"
  proof (rule fold_multiset_equiv [OF _ assms(1)])
    fix x y
    assume "x \<in> set ops'" "y \<in> set ops'"
    with assms(2) set have "index x = index y \<Longrightarrow> x = y"
      by (auto dest: inj_onD)
    then show "mapAssign (index x) (g x) \<circ> mapAssign (index y) (g y) =
        mapAssign (index y) (g y) \<circ> mapAssign (index x) (g x)"
      by (cases "index x = index y") (auto simp: fun_eq_iff mapAssign_commute)
  qed
  then show ?thesis by simp
qed

lemma mapAssign_last:
  "\<forall>k' \<in> fst ` set m. k' < k \<Longrightarrow> mapAssign k v m = m @ [(k, v)]"
  by (induction m) auto

lemma fold_mapAssign_ascending:
  assumes "sorted_wrt (<) (map index ops)" and "\<forall>k \<in> fst ` set m. \<forall>op \<in> set ops. k < index op"
  shows "fold (\<lambda>op. mapAssign (index op) (g op)) ops m = m @ map (\<lambda>op. (index op, g op)) ops"
  using assms
proof (induction ops arbitrary: m)
  case Nil
  show ?case by simp
next
  case (Cons op ops)
  have step: "mapAssign (index op) (g op) m = m @ [(index op, g op)]"
    using Cons.prems(2) by (intro mapAssign_last) simp
  have "fold (\<lambda>op. mapAssign (index op) (g op)) ops (m @ [(index op, g op)]) =
      (m @ [(index op, g op)]) @ map (\<lambda>op. (index op, g op)) ops"
    using Cons.prems by (intro Cons.IH) auto
  then show ?case
    by (simp add: step)
qed

lemma loaded_indices:
  assumes "readLines inFile p0 = Inr p" and "operators p0 = []"
  shows "map index (operators p) = [1..<length inFile + 1]"
proof -
  have "map index (operators p) = map (\<lambda>(k, l). Suc k) (enumerate 0 inFile)"
    unfolding readLines_success(1) [OF assms]
    by (simp add: termOfLine_def split_def comp_def)
  also have "\<dots> = map (Suc \<circ> fst) (enumerate 0 inFile)"
    by (simp add: split_def comp_def)
  also have "\<dots> = map Suc (map fst (enumerate 0 inFile))"
    by (simp only: map_map)
  also have "\<dots> = map Suc [0..<length inFile]"
    by (simp only: map_fst_enumerate add_0)
  also have "\<dots> = [1..<length inFile + 1]"
    by (simp add: map_Suc_upt)
  finally show ?thesis .
qed

lemma loaded_indices_sorted:
  assumes "readLines inFile p0 = Inr p" and "operators p0 = []"
  shows "sorted_wrt (<) (map index (operators p))" and "inj_on index (set (operators p))"
proof -
  show s: "sorted_wrt (<) (map index (operators p))"
    unfolding loaded_indices [OF assms] by (simp add: strict_sorted_iff [symmetric] del: upt_Suc)
  then have "distinct (map index (operators p))"
    by (simp add: strict_sorted_iff)
  then show "inj_on index (set (operators p))"
    by (simp add: distinct_map)
qed

lemma forEachOp_sched:
  assumes "mset ops' = mset ops" and "inj_on index (set ops)"
  shows "forEachOp F p ops' [] = Inr m \<longleftrightarrow> forEachOp F p ops [] = Inr m"
proof -
  have set: "set ops' = set ops"
    using assms(1) by (rule mset_eq_setD)
  show ?thesis
  proof (cases "\<forall>op \<in> set ops. set (strRep op) \<subseteq> pauliChars")
    case True
    then have "\<forall>op \<in> set ops'. set (strRep op) \<subseteq> pauliChars"
      by (simp add: set)
    from forEachOp_valid [OF this] forEachOp_valid [OF True] show ?thesis
      by (simp add: fold_mapAssign_perm [OF assms])
  next
    case False
    then have "\<not> (\<forall>op \<in> set ops'. set (strRep op) \<subseteq> pauliChars)"
      by (simp add: set)
    from forEachOp_invalid [OF this, of F p "[]"] forEachOp_invalid [OF False, of F p "[]"]
    show ?thesis by auto
  qed
qed

lemma forEachOp_loaded:
  assumes "readLines inFile p0 = Inr p" and "operators p0 = []"
    and "mset ops' = mset (operators p)"
    and "\<forall>op \<in> set (operators p). set (strRep op) \<subseteq> pauliChars"
  shows "forEachOp F p ops' [] = Inr (map (\<lambda>op. (index op, blockOf F p op)) (operators p))"
proof -
  have "forEachOp F p (operators p) [] =
      Inr (map (\<lambda>op. (index op, blockOf F p op)) (operators p))"
    using fold_mapAssign_ascending [OF loaded_indices_sorted(1) [OF assms(1,2)], of "[]"]
    by (simp add: forEachOp_valid [OF assms(4)])
  then show ?thesis
    by (simp add: forEachOp_sched [OF assms(3) loaded_indices_sorted(2) [OF assms(1,2)]])
qed

section \<open>The entry points\<close>

lemma appendOps_concat: "appendOps qasm m = qasm @ concat (map snd m)"
  by (induction qasm m rule: appendOps.induct) simp_all

lemma operators_start:
  "operators (case multiplier of Some m \<Rightarrow> (newParser junk)\<lparr>mup := to_string F m @ ''*''\<rparr>
                         | None \<Rightarrow> newParser junk) = []"
  "operators (case multiplier of Some m \<Rightarrow> (newParser junk)\<lparr>openmp := b, mup := to_string F m @ ''*''\<rparr>
                         | None \<Rightarrow> (newParser junk)\<lparr>openmp := b\<rparr>) = []"
  by (simp_all add: newParser_def split: option.splits)

lemma parseCircuitSeq_unfold:
  "parseCircuitSeq F sched junk inFile version outFile multiplier =
     (case readLines inFile
             (case multiplier of Some m \<Rightarrow> (newParser junk)\<lparr>mup := to_string F m @ ''*''\<rparr>
                         | None \<Rightarrow> newParser junk) of
        Inl e \<Rightarrow> Inl e
      | Inr p \<Rightarrow>
          (case forEachOp F p (sched (operators p)) [] of
             Inl e \<Rightarrow> Inl e
           | Inr m \<Rightarrow>
               Inr ((if version = 3 then version3Header (numberQubits p)
                     else version2Header (numberQubits p))
                    @ (if outFile = Some False then [] else concat (map snd m)))))"
  by (auto simp: parseCircuitSeq_def Let_def appendOps_concat split: sum.splits option.splits)

lemma parseCircuit_unfold:
  "parseCircuit F sched junk inFile useOpenMP version outFile multiplier =
     (case readLines inFile
             (case multiplier of Some m \<Rightarrow> (newParser junk)\<lparr>openmp := useOpenMP, mup := to_string F m @ ''*''\<rparr>
                         | None \<Rightarrow> (newParser junk)\<lparr>openmp := useOpenMP\<rparr>) of
        Inl e \<Rightarrow> Inl e
      | Inr p \<Rightarrow>
          (case forEachOp F p (sched (operators p)) [] of
             Inl e \<Rightarrow> Inl e
           | Inr m \<Rightarrow>
               Inr ((if version = 3 then version3Header (numberQubits p)
                     else version2Header (numberQubits p))
                    @ concat (map snd m)
                    @ (if outFile = Some False then [] else concat (map snd m)))))"
  by (auto simp: parseCircuit_def Let_def appendOps_concat split: sum.splits option.splits)

lemma forEachOp_sched_cases:
  assumes "mset ops' = mset ops" and "inj_on index (set ops)"
  shows "case_sum (\<lambda>e. None) Some (forEachOp F p ops' []) = case_sum (\<lambda>e. None) Some (forEachOp F p ops [])"
proof (cases "forEachOp F p ops []")
  case (Inl e)
  then have "forEachOp F p ops' [] \<noteq> Inr m" for m
    by (simp add: forEachOp_sched [OF assms])
  then show ?thesis
    using Inl by (cases "forEachOp F p ops' []") auto
next
  case (Inr m)
  then have "forEachOp F p ops' [] = Inr m"
    by (simp add: forEachOp_sched [OF assms])
  with Inr show ?thesis
    by simp
qed

lemma sum_case_Inr_iff:
  "(case x of Inl e \<Rightarrow> Inl e | Inr m \<Rightarrow> Inr (f m)) = Inr t \<longleftrightarrow>
     (\<exists>m. case_sum (\<lambda>e. None) Some x = Some m \<and> f m = t)"
  by (cases x) auto

text \<open>
  The text does not depend on the order in which the workers finish: with any two
  rearrangements of the loaded operators as worker orders, a run returns a text exactly when
  the other run returns the same text (the blocks are stored under their line numbers, which
  are distinct).
\<close>

lemma schedule_independent:
  assumes "\<And>xs. mset (sched1 xs) = mset xs" and "\<And>xs. mset (sched2 xs) = mset xs"
  shows "(parseCircuitSeq F sched1 junk inFile version outFile multiplier = Inr t
            \<longleftrightarrow> parseCircuitSeq F sched2 junk inFile version outFile multiplier = Inr t)
         \<and> (parseCircuit F sched1 junk inFile useOpenMP version outFile multiplier = Inr t
            \<longleftrightarrow> parseCircuit F sched2 junk inFile useOpenMP version outFile multiplier = Inr t)"
proof -
  have eq: "case_sum (\<lambda>e. None) Some (forEachOp F p (sched1 (operators p)) []) =
            case_sum (\<lambda>e. None) Some (forEachOp F p (sched2 (operators p)) [])"
    if "readLines inFile p0 = Inr p" and "operators p0 = []" for p p0
    using forEachOp_sched_cases [OF assms(1) loaded_indices_sorted(2) [OF that], of F p]
      forEachOp_sched_cases [OF assms(2) loaded_indices_sorted(2) [OF that], of F p]
    by simp
  show ?thesis
    unfolding parseCircuitSeq_unfold parseCircuit_unfold
    by (auto simp: sum_case_Inr_iff eq [OF _ operators_start(1)] eq [OF _ operators_start(2)]
        split: sum.splits)
qed


lemma parseCircuitSeq_text:
  assumes "\<And>xs. mset (sched xs) = mset xs"
    and "readLines inFile
           (case multiplier of Some m \<Rightarrow> (newParser junk)\<lparr>mup := to_string F m @ ''*''\<rparr>
                             | None \<Rightarrow> newParser junk) = Inr p"
    and "\<forall>op \<in> set (operators p). set (strRep op) \<subseteq> pauliChars"
  shows "parseCircuitSeq F sched junk inFile version outFile multiplier =
           Inr ((if version = 3 then version3Header (numberQubits p)
                 else version2Header (numberQubits p))
                @ (if outFile = Some False then []
                   else concat (map (blockOf F p) (operators p))))"
  unfolding parseCircuitSeq_unfold
  by (simp add: assms(2) forEachOp_loaded [OF assms(2) operators_start(1) assms(1) assms(3)]
      comp_def)

lemma parseCircuit_text:
  assumes "\<And>xs. mset (sched xs) = mset xs"
    and "readLines inFile
           (case multiplier of
              Some m \<Rightarrow> (newParser junk)\<lparr>openmp := useOpenMP, mup := to_string F m @ ''*''\<rparr>
            | None \<Rightarrow> (newParser junk)\<lparr>openmp := useOpenMP\<rparr>) = Inr p"
    and "\<forall>op \<in> set (operators p). set (strRep op) \<subseteq> pauliChars"
  shows "parseCircuit F sched junk inFile useOpenMP version outFile multiplier =
           Inr ((if version = 3 then version3Header (numberQubits p)
                 else version2Header (numberQubits p))
                @ concat (map (blockOf F p) (operators p))
                @ (if outFile = Some False then []
                   else concat (map (blockOf F p) (operators p))))"
  unfolding parseCircuit_unfold
  by (simp add: assms(2) forEachOp_loaded [OF assms(2) operators_start(2) assms(1) assms(3)]
      comp_def)

lemma loaded_lengths:
  assumes "readLines inFile p0 = Inr p" and "operators p0 = []" and "op \<in> set (operators p)"
  shows "length (strRep op) = numberQubits p"
proof -
  from assms(3) obtain k l where kl: "(k, l) \<in> set (enumerate 0 inFile)"
    and op: "op = termOfLine (Suc k) (the (extractLine l))"
    unfolding readLines_success(1) [OF assms(1,2)] by auto
  from kl have "l \<in> set inFile"
    by (auto simp: in_set_enumerate_eq)
  from readLines_success(4) [OF assms(1,2) this] show ?thesis
    by (auto simp: op termOfLine_def)
qed

lemma header_prefix_Seq:
  assumes "inFile \<noteq> []"
    and "parseCircuitSeq F sched junk inFile version outFile multiplier = Inr t"
  shows "\<exists>rest. t = (if version = 3 then version3Header (length (strField (hd inFile)))
                     else version2Header (length (strField (hd inFile)))) @ rest"
proof -
  from assms(2) obtain p where p: "readLines inFile
      (case multiplier of Some m \<Rightarrow> (newParser junk)\<lparr>mup := to_string F m @ ''*''\<rparr>
                        | None \<Rightarrow> newParser junk) = Inr p"
    unfolding parseCircuitSeq_unfold by (auto split: sum.splits)
  have nq: "numberQubits p = length (strField (hd inFile))"
    by (rule readLines_success(3) [OF p operators_start(1) assms(1)])
  from assms(2) show ?thesis
    unfolding parseCircuitSeq_unfold by (auto simp: p nq split: sum.splits)
qed

lemma header_prefix_Par:
  assumes "inFile \<noteq> []"
    and "parseCircuit F sched junk inFile useOpenMP version outFile multiplier = Inr t"
  shows "\<exists>rest. t = (if version = 3 then version3Header (length (strField (hd inFile)))
                     else version2Header (length (strField (hd inFile)))) @ rest"
proof -
  from assms(2) obtain p where p: "readLines inFile
      (case multiplier of
         Some m \<Rightarrow> (newParser junk)\<lparr>openmp := useOpenMP, mup := to_string F m @ ''*''\<rparr>
       | None \<Rightarrow> (newParser junk)\<lparr>openmp := useOpenMP\<rparr>) = Inr p"
    unfolding parseCircuit_unfold by (auto split: sum.splits)
  have nq: "numberQubits p = length (strField (hd inFile))"
    by (rule readLines_success(3) [OF p operators_start(2) assms(1)])
  from assms(2) show ?thesis
    unfolding parseCircuit_unfold by (auto simp: p nq split: sum.splits)
qed

lemma mismatch_after_first:
  assumes "0 < k" and "k < length inFile" and "readLines (take k inFile) p0 = Inr p1"
    and "extractLine (inFile ! k) = Some (s, c, r)"
    and "length s \<noteq> length (strField (hd inFile))"
  shows "readLines inFile p0 =
           Inl (Exit (k + 1) ''Non-matching length of string representation!'')"
proof -
  have ne: "take k inFile \<noteq> []"
    using assms(1,2) by auto
  have "numberQubits p1 = length (strField (hd (take k inFile)))"
    using readLoop_success [OF assms(3) [unfolded readLines_def]] ne by simp
  also have "hd (take k inFile) = hd inFile"
    using assms(1) by (cases k) simp_all
  finally show ?thesis
    using assms(5) by (intro readLines_mismatch [OF assms(1-4)]) simp
qed

lemma version3Header_text:
  "version3Header n =
     ''OPENQASM 3.0;\<newline>include '' @ [CHR 0x22] @ ''stdgates.inc'' @ [CHR 0x22] @ '';\<newline>qubit['' @ dec (n) @ ''] q;\<newline>bit['' @ dec (n) @ ''] c;\<newline>''"
  by (simp add: version3Header_def)

lemma version2Header_text:
  "version2Header n =
     ''OPENQASM 2.0;\<newline>include '' @ [CHR 0x22] @ ''qelib1.inc'' @ [CHR 0x22] @ '';\<newline>qreg q['' @ dec (n) @ ''];\<newline>creg c['' @ dec (n) @ ''];\<newline>''"
  by (simp add: version2Header_def)

text \<open>
  Claim C7. The returned text of either entry point starts with the OpenQASM 3.0 lines and
  the declarations \<open>qubit[n] q;\<close> and \<open>bit[n] c;\<close> when the requested version is
  \<open>3\<close>, and with the OpenQASM 2.0 lines and the declarations \<open>qreg q[n];\<close> and
  \<open>creg c[n];\<close> otherwise, where \<open>n\<close> is the length of the first record's basis string,
  printed in decimal (\<open>CHR 0x22\<close> is the double quote around the name of the included
  file). Every loaded record has a basis string of that length; and when the lines before
  line \<open>k + 1\<close> load and the basis string of that line has another length, loading ends in
  \<open>printError\<close> with the message for a length mismatch and the line number \<open>k + 1\<close>.
\<close>

theorem header_and_width:
  "(inFile \<noteq> [] \<and> parseCircuitSeq F sched junk inFile version outFile multiplier = Inr t \<longrightarrow>
      (\<exists>rest. t =
         (if version = 3
          then ''OPENQASM 3.0;\<newline>include '' @ [CHR 0x22] @ ''stdgates.inc'' @ [CHR 0x22] @ '';\<newline>qubit['' @ dec (length (strField (hd inFile))) @ ''] q;\<newline>bit['' @ dec (length (strField (hd inFile))) @ ''] c;\<newline>''
          else ''OPENQASM 2.0;\<newline>include '' @ [CHR 0x22] @ ''qelib1.inc'' @ [CHR 0x22] @ '';\<newline>qreg q['' @ dec (length (strField (hd inFile))) @ ''];\<newline>creg c['' @ dec (length (strField (hd inFile))) @ ''];\<newline>'') @ rest))
   \<and> (inFile \<noteq> [] \<and> parseCircuit F sched junk inFile useOpenMP version outFile multiplier = Inr t' \<longrightarrow>
      (\<exists>rest. t' =
         (if version = 3
          then ''OPENQASM 3.0;\<newline>include '' @ [CHR 0x22] @ ''stdgates.inc'' @ [CHR 0x22] @ '';\<newline>qubit['' @ dec (length (strField (hd inFile))) @ ''] q;\<newline>bit['' @ dec (length (strField (hd inFile))) @ ''] c;\<newline>''
          else ''OPENQASM 2.0;\<newline>include '' @ [CHR 0x22] @ ''qelib1.inc'' @ [CHR 0x22] @ '';\<newline>qreg q['' @ dec (length (strField (hd inFile))) @ ''];\<newline>creg c['' @ dec (length (strField (hd inFile))) @ ''];\<newline>'') @ rest))
   \<and> (operators p0 = [] \<and> readLines inFile p0 = Inr p \<longrightarrow>
      (\<forall>op \<in> set (operators p). length (strRep op) = numberQubits p))
   \<and> (0 < k \<and> k < length inFile' \<and> readLines (take k inFile') p0' = Inr p1
        \<and> extractLine (inFile' ! k) = Some (s, c, r)
        \<and> length s \<noteq> length (strField (hd inFile')) \<longrightarrow>
      readLines inFile' p0' =
        Inl (Exit (k + 1) ''Non-matching length of string representation!''))"
proof (intro conjI impI)
  assume "inFile \<noteq> [] \<and> parseCircuitSeq F sched junk inFile version outFile multiplier = Inr t"
  then have "\<exists>rest. t = (if version = 3 then version3Header (length (strField (hd inFile)))
                          else version2Header (length (strField (hd inFile)))) @ rest"
    using header_prefix_Seq [of inFile F sched junk version outFile multiplier t] by blast
  then show "\<exists>rest. t =
         (if version = 3
          then ''OPENQASM 3.0;\<newline>include '' @ [CHR 0x22] @ ''stdgates.inc'' @ [CHR 0x22] @ '';\<newline>qubit['' @ dec (length (strField (hd inFile))) @ ''] q;\<newline>bit['' @ dec (length (strField (hd inFile))) @ ''] c;\<newline>''
          else ''OPENQASM 2.0;\<newline>include '' @ [CHR 0x22] @ ''qelib1.inc'' @ [CHR 0x22] @ '';\<newline>qreg q['' @ dec (length (strField (hd inFile))) @ ''];\<newline>creg c['' @ dec (length (strField (hd inFile))) @ ''];\<newline>'') @ rest"
    by (simp only: version3Header_text version2Header_text)
next
  assume "inFile \<noteq> [] \<and> parseCircuit F sched junk inFile useOpenMP version outFile multiplier = Inr t'"
  then have "\<exists>rest. t' = (if version = 3 then version3Header (length (strField (hd inFile)))
                           else version2Header (length (strField (hd inFile)))) @ rest"
    using header_prefix_Par [of inFile F sched junk useOpenMP version outFile multiplier t']
    by blast
  then show "\<exists>rest. t' =
         (if version = 3
          then ''OPENQASM 3.0;\<newline>include '' @ [CHR 0x22] @ ''stdgates.inc'' @ [CHR 0x22] @ '';\<newline>qubit['' @ dec (length (strField (hd inFile))) @ ''] q;\<newline>bit['' @ dec (length (strField (hd inFile))) @ ''] c;\<newline>''
          else ''OPENQASM 2.0;\<newline>include '' @ [CHR 0x22] @ ''qelib1.inc'' @ [CHR 0x22] @ '';\<newline>qreg q['' @ dec (length (strField (hd inFile))) @ ''];\<newline>creg c['' @ dec (length (strField (hd inFile))) @ ''];\<newline>'') @ rest"
    by (simp only: version3Header_text version2Header_text)
next
  assume "operators p0 = [] \<and> readLines inFile p0 = Inr p"
  then show "\<forall>op \<in> set (operators p). length (strRep op) = numberQubits p"
    using loaded_lengths [of inFile p0 p] by blast
next
  assume "0 < k \<and> k < length inFile' \<and> readLines (take k inFile') p0' = Inr p1
        \<and> extractLine (inFile' ! k) = Some (s, c, r)
        \<and> length s \<noteq> length (strField (hd inFile'))"
  then show "readLines inFile' p0' =
        Inl (Exit (k + 1) ''Non-matching length of string representation!'')"
    using mismatch_after_first [of k inFile' p0' p1 s c r] by blast
qed

text \<open>
  The uninitialised members of the parser do not reach the result when the input has at least
  one line: \<open>openmp\<close> is never read, and \<open>numberQubits\<close> is assigned at line 1 before it is
  read.
\<close>

lemma readLoop_first_numberQubits:
  "readLoop (l # rest) 0 (p\<lparr>numberQubits := n\<rparr>) = readLoop (l # rest) 0 p"
  by (simp add: Let_def split: option.splits)

lemma readLoop_openmp:
  "readLoop inFile n \<lparr>numberQubits = a, mup = m, operators = ops, openmp = b\<rparr> =
     (case readLoop inFile n \<lparr>numberQubits = a, mup = m, operators = ops, openmp = b'\<rparr> of
        Inl e \<Rightarrow> Inl e
      | Inr q \<Rightarrow> Inr (q\<lparr>openmp := b\<rparr>))"
proof (induction inFile arbitrary: n a ops)
  case Nil
  show ?case by simp
next
  case (Cons l rest)
  show ?case
    by (simp add: Let_def errorCheck_def Cons.IH split: option.splits)
qed

lemma parseOpToQasm_openmp:
  "parseOpToQasm F (p\<lparr>openmp := b\<rparr>) qop = parseOpToQasm F p qop"
  by (simp add: parseOpToQasm_def)

lemma forEachOp_openmp:
  "forEachOp F (p\<lparr>openmp := b\<rparr>) ops m = forEachOp F p ops m"
  by (induction ops arbitrary: m) (simp_all add: parseOpToQasm_openmp split: sum.splits)

lemma startSeq:
  "(case multiplier of Some m \<Rightarrow> (newParser junk)\<lparr>mup := to_string F m @ ''*''\<rparr>
                     | None \<Rightarrow> newParser junk) =
   \<lparr>numberQubits = fst junk,
    mup = (case multiplier of Some m \<Rightarrow> to_string F m @ ''*'' | None \<Rightarrow> ''0.5*''),
    operators = [], openmp = snd junk\<rparr>"
  by (simp add: newParser_def split: option.splits)

lemma startPar:
  "(case multiplier of
      Some m \<Rightarrow> (newParser junk)\<lparr>openmp := useOpenMP, mup := to_string F m @ ''*''\<rparr>
    | None \<Rightarrow> (newParser junk)\<lparr>openmp := useOpenMP\<rparr>) =
   \<lparr>numberQubits = fst junk,
    mup = (case multiplier of Some m \<Rightarrow> to_string F m @ ''*'' | None \<Rightarrow> ''0.5*''),
    operators = [], openmp = useOpenMP\<rparr>"
  by (simp add: newParser_def split: option.splits)

lemma readLoop_junk:
  assumes "inFile \<noteq> []"
  shows "readLoop inFile 0 \<lparr>numberQubits = a, mup = m, operators = ops, openmp = b\<rparr> =
     (case readLoop inFile 0 \<lparr>numberQubits = a', mup = m, operators = ops, openmp = b'\<rparr> of
        Inl e \<Rightarrow> Inl e
      | Inr q \<Rightarrow> Inr (q\<lparr>openmp := b\<rparr>))"
proof -
  from assms obtain l rest where inFile: "inFile = l # rest"
    by (cases inFile) auto
  have "readLoop (l # rest) 0 \<lparr>numberQubits = a, mup = m, operators = ops, openmp = b'\<rparr> =
        readLoop (l # rest) 0 \<lparr>numberQubits = a', mup = m, operators = ops, openmp = b'\<rparr>"
    using readLoop_first_numberQubits
      [where p = "\<lparr>numberQubits = a', mup = m, operators = ops, openmp = b'\<rparr>"
         and n = a and l = l and rest = rest]
    by simp
  then show ?thesis
    unfolding inFile by (subst readLoop_openmp [where b' = b']) simp
qed

lemma parseCircuitSeq_junk:
  assumes "inFile \<noteq> []"
  shows "parseCircuitSeq F sched junkA inFile version outFile multiplier =
         parseCircuitSeq F sched junkB inFile version outFile multiplier"
  unfolding parseCircuitSeq_unfold readLines_def startSeq
  by (subst readLoop_junk [OF assms, where a' = "fst junkB" and b' = "snd junkB"])
    (simp add: forEachOp_openmp split: sum.splits)

lemma parseCircuit_junk:
  assumes "inFile \<noteq> []"
  shows "parseCircuit F sched junkA inFile useOpenMP version outFile multiplier =
         parseCircuit F sched junkB inFile useOpenMP version outFile multiplier"
  unfolding parseCircuit_unfold readLines_def startPar
  by (subst readLoop_junk [OF assms, where a' = "fst junkB" and b' = useOpenMP])
    (simp add: forEachOp_openmp split: sum.splits)

text \<open>
  Two compilations of the same input with at least one line, the same version and the same
  multiplier: whatever the uninitialised members hold in each run, and in whatever order the
  workers of each run finish, one returns a text exactly when the other returns the same
  text.
\<close>

lemma compile_independent_of_run:
  assumes "\<And>xs. mset (sched1 xs) = mset xs" and "\<And>xs. mset (sched2 xs) = mset xs"
    and "inFile \<noteq> []"
  shows "(parseCircuitSeq F sched1 junk1 inFile version outFile multiplier = Inr t
            \<longleftrightarrow> parseCircuitSeq F sched2 junk2 inFile version outFile multiplier = Inr t)
         \<and> (parseCircuit F sched1 junk1 inFile useOpenMP version outFile multiplier = Inr t
            \<longleftrightarrow> parseCircuit F sched2 junk2 inFile useOpenMP version outFile multiplier = Inr t)"
proof -
  have s: "parseCircuitSeq F sched2 junk1 inFile version outFile multiplier =
           parseCircuitSeq F sched2 junk2 inFile version outFile multiplier"
    by (rule parseCircuitSeq_junk [OF assms(3)])
  have p: "parseCircuit F sched2 junk1 inFile useOpenMP version outFile multiplier =
           parseCircuit F sched2 junk2 inFile useOpenMP version outFile multiplier"
    by (rule parseCircuit_junk [OF assms(3)])
  have "(parseCircuitSeq F sched1 junk1 inFile version outFile multiplier = Inr t
            \<longleftrightarrow> parseCircuitSeq F sched2 junk1 inFile version outFile multiplier = Inr t)
         \<and> (parseCircuit F sched1 junk1 inFile useOpenMP version outFile multiplier = Inr t
            \<longleftrightarrow> parseCircuit F sched2 junk1 inFile useOpenMP version outFile multiplier = Inr t)"
    by (rule schedule_independent [OF assms(1,2)])
  then show ?thesis
    by (simp only: s p)
qed

section \<open>Examples\<close>

lemma mset_id_sched: "mset ((\<lambda>ys. ys) xs) = mset xs"
  by simp

lemma load_two:
  "readLines [\<lparr>strField = ''XZ'', coefField = Some 1, paramField = Some 5\<rparr>,
              \<lparr>strField = ''YX'', coefField = Some 2, paramField = Some 0\<rparr>]
     ((newParser (0, False))\<lparr>openmp := b\<rparr>) =
     Inr \<lparr>numberQubits = 2, mup = ''0.5*'',
          operators = [\<lparr>index = 1, strRep = ''XZ'', intOp = [], coef = 1, param = 5\<rparr>,
                       \<lparr>index = 2, strRep = ''YX'', intOp = [], coef = 2, param = 2\<rparr>],
          openmp = b\<rparr>"
  by (simp add: readLines_def extractLine_def errorCheck_def ULONG_MAX_def newParser_def)

lemma newParser_openmp: "(newParser (n, b))\<lparr>openmp := b\<rparr> = newParser (n, b)"
  by (simp add: newParser_def)

lemma block_XZ:
  "blockOf natPrinters \<lparr>numberQubits = n, mup = ''0.5*'', operators = ops, openmp = b\<rparr>
     \<lparr>index = Suc 0, strRep = ''XZ'', intOp = [], coef = 1, param = 5\<rparr> =
   ''\<newline>// New operator from line 1\<newline>ry(pi/2) q[0];\<newline>cx q[0], q[1];\<newline>rz(0.5*1*$[5]) q[1];\<newline>cx q[0], q[1];\<newline>ry(-pi/2) q[0];\<newline>''"
  by (simp add: blockOf_def positions_def termInstrs_def specBlock_def nonPivotLayers_def
      pivotBefore_def pivotAfter_def wrapLayer_def usub1_def maxElem_def natPrinters_fmt_1
      renderAll_def dec.simps)

lemma block_YX:
  "blockOf natPrinters \<lparr>numberQubits = n, mup = ''0.5*'', operators = ops, openmp = b\<rparr>
     \<lparr>index = 2, strRep = ''YX'', intOp = [], coef = 2, param = 2\<rparr> =
   ''\<newline>// New operator from line 2\<newline>ry(pi/2) q[1];\<newline>rx(-pi/2) q[0];\<newline>cx q[0], q[1];\<newline>rz(0.5*2*$[2]) q[1];\<newline>cx q[0], q[1];\<newline>rx(pi/2) q[0];\<newline>ry(-pi/2) q[1];\<newline>''"
  by (simp add: blockOf_def positions_def termInstrs_def specBlock_def nonPivotLayers_def
      pivotBefore_def pivotAfter_def wrapLayer_def usub1_def maxElem_def natPrinters_fmt_2
      renderAll_def dec.simps)

lemma schedule_independent_example:
  "(\<forall>xs :: QuantumOperator list. mset (rev xs) = mset xs)
   \<and> parseCircuitSeq natPrinters (\<lambda>ys. ys) (0, False)
        [\<lparr>strField = ''XZ'', coefField = Some 1, paramField = Some 5\<rparr>,
         \<lparr>strField = ''YX'', coefField = Some 2, paramField = Some 0\<rparr>] 3 None None =
      Inr (version3Header 2 @ ''\<newline>// New operator from line 1\<newline>ry(pi/2) q[0];\<newline>cx q[0], q[1];\<newline>rz(0.5*1*$[5]) q[1];\<newline>cx q[0], q[1];\<newline>ry(-pi/2) q[0];\<newline>\<newline>// New operator from line 2\<newline>ry(pi/2) q[1];\<newline>rx(-pi/2) q[0];\<newline>cx q[0], q[1];\<newline>rz(0.5*2*$[2]) q[1];\<newline>cx q[0], q[1];\<newline>rx(pi/2) q[0];\<newline>ry(-pi/2) q[1];\<newline>'')
   \<and> parseCircuitSeq natPrinters rev (0, False)
        [\<lparr>strField = ''XZ'', coefField = Some 1, paramField = Some 5\<rparr>,
         \<lparr>strField = ''YX'', coefField = Some 2, paramField = Some 0\<rparr>] 3 None None =
      Inr (version3Header 2 @ ''\<newline>// New operator from line 1\<newline>ry(pi/2) q[0];\<newline>cx q[0], q[1];\<newline>rz(0.5*1*$[5]) q[1];\<newline>cx q[0], q[1];\<newline>ry(-pi/2) q[0];\<newline>\<newline>// New operator from line 2\<newline>ry(pi/2) q[1];\<newline>rx(-pi/2) q[0];\<newline>cx q[0], q[1];\<newline>rz(0.5*2*$[2]) q[1];\<newline>cx q[0], q[1];\<newline>rx(pi/2) q[0];\<newline>ry(-pi/2) q[1];\<newline>'')"
proof -
  let ?inFile = "[\<lparr>strField = ''XZ'', coefField = Some 1, paramField = Some 5\<rparr>,
                  \<lparr>strField = ''YX'', coefField = Some 2, paramField = Some 0\<rparr>]"
  have load: "readLines ?inFile (case None of
        Some m \<Rightarrow> (newParser (0, False))\<lparr>mup := to_string natPrinters m @ ''*''\<rparr>
      | None \<Rightarrow> newParser (0, False)) =
     Inr \<lparr>numberQubits = 2, mup = ''0.5*'',
          operators = [\<lparr>index = 1, strRep = ''XZ'', intOp = [], coef = 1, param = 5\<rparr>,
                       \<lparr>index = 2, strRep = ''YX'', intOp = [], coef = 2, param = 2\<rparr>],
          openmp = False\<rparr>"
    using load_two [of False] by (simp add: newParser_openmp)
  have one: "parseCircuitSeq natPrinters (\<lambda>ys. ys) (0, False) ?inFile 3 None None =
      Inr (version3Header 2 @ ''\<newline>// New operator from line 1\<newline>ry(pi/2) q[0];\<newline>cx q[0], q[1];\<newline>rz(0.5*1*$[5]) q[1];\<newline>cx q[0], q[1];\<newline>ry(-pi/2) q[0];\<newline>\<newline>// New operator from line 2\<newline>ry(pi/2) q[1];\<newline>rx(-pi/2) q[0];\<newline>cx q[0], q[1];\<newline>rz(0.5*2*$[2]) q[1];\<newline>cx q[0], q[1];\<newline>rx(pi/2) q[0];\<newline>ry(-pi/2) q[1];\<newline>'')"
    by (subst parseCircuitSeq_text [OF mset_id_sched load])
      (simp_all add: pauliChars_def block_XZ block_YX)
  have perm: "mset (rev xs) = mset xs" for xs :: "QuantumOperator list"
    by simp
  from schedule_independent [of rev "\<lambda>ys. ys", OF perm mset_id_sched] one perm
  show ?thesis
    by blast
qed


theorem header_and_width_witness:
  "parseCircuitSeq natPrinters rev (0, False)
        [\<lparr>strField = ''XZ'', coefField = Some 1, paramField = Some 5\<rparr>,
         \<lparr>strField = ''YX'', coefField = Some 2, paramField = Some 0\<rparr>] 3 None None =
      Inr (''OPENQASM 3.0;\<newline>include '' @ [CHR 0x22] @ ''stdgates.inc'' @ [CHR 0x22] @ '';\<newline>qubit[2] q;\<newline>bit[2] c;\<newline>''
           @ ''\<newline>// New operator from line 1\<newline>ry(pi/2) q[0];\<newline>cx q[0], q[1];\<newline>rz(0.5*1*$[5]) q[1];\<newline>cx q[0], q[1];\<newline>ry(-pi/2) q[0];\<newline>\<newline>// New operator from line 2\<newline>ry(pi/2) q[1];\<newline>rx(-pi/2) q[0];\<newline>cx q[0], q[1];\<newline>rz(0.5*2*$[2]) q[1];\<newline>cx q[0], q[1];\<newline>rx(pi/2) q[0];\<newline>ry(-pi/2) q[1];\<newline>'')
   \<and> parseCircuit natPrinters rev (0, False)
        [\<lparr>strField = ''XZ'', coefField = Some 1, paramField = Some 5\<rparr>,
         \<lparr>strField = ''YX'', coefField = Some 2, paramField = Some 0\<rparr>] True 3 None None =
      Inr (''OPENQASM 3.0;\<newline>include '' @ [CHR 0x22] @ ''stdgates.inc'' @ [CHR 0x22] @ '';\<newline>qubit[2] q;\<newline>bit[2] c;\<newline>''
           @ ''\<newline>// New operator from line 1\<newline>ry(pi/2) q[0];\<newline>cx q[0], q[1];\<newline>rz(0.5*1*$[5]) q[1];\<newline>cx q[0], q[1];\<newline>ry(-pi/2) q[0];\<newline>\<newline>// New operator from line 2\<newline>ry(pi/2) q[1];\<newline>rx(-pi/2) q[0];\<newline>cx q[0], q[1];\<newline>rz(0.5*2*$[2]) q[1];\<newline>cx q[0], q[1];\<newline>rx(pi/2) q[0];\<newline>ry(-pi/2) q[1];\<newline>\<newline>// New operator from line 1\<newline>ry(pi/2) q[0];\<newline>cx q[0], q[1];\<newline>rz(0.5*1*$[5]) q[1];\<newline>cx q[0], q[1];\<newline>ry(-pi/2) q[0];\<newline>\<newline>// New operator from line 2\<newline>ry(pi/2) q[1];\<newline>rx(-pi/2) q[0];\<newline>cx q[0], q[1];\<newline>rz(0.5*2*$[2]) q[1];\<newline>cx q[0], q[1];\<newline>rx(pi/2) q[0];\<newline>ry(-pi/2) q[1];\<newline>'')
   \<and> parseCircuitSeq natPrinters rev (0, False)
        [\<lparr>strField = ''XZ'', coefField = Some 1, paramField = Some 5\<rparr>,
         \<lparr>strField = ''YX'', coefField = Some 2, paramField = Some 0\<rparr>] 2 None None =
      Inr (''OPENQASM 2.0;\<newline>include '' @ [CHR 0x22] @ ''qelib1.inc'' @ [CHR 0x22] @ '';\<newline>qreg q[2];\<newline>creg c[2];\<newline>''
           @ ''\<newline>// New operator from line 1\<newline>ry(pi/2) q[0];\<newline>cx q[0], q[1];\<newline>rz(0.5*1*$[5]) q[1];\<newline>cx q[0], q[1];\<newline>ry(-pi/2) q[0];\<newline>\<newline>// New operator from line 2\<newline>ry(pi/2) q[1];\<newline>rx(-pi/2) q[0];\<newline>cx q[0], q[1];\<newline>rz(0.5*2*$[2]) q[1];\<newline>cx q[0], q[1];\<newline>rx(pi/2) q[0];\<newline>ry(-pi/2) q[1];\<newline>'')
   \<and> readLines
        [\<lparr>strField = ''XZ'', coefField = Some 1, paramField = Some 5\<rparr>,
         \<lparr>strField = ''X'', coefField = Some 2, paramField = Some 1\<rparr>] (newParser (0, False)) =
      Inl (Exit 2 ''Non-matching length of string representation!'')"
proof -
  let ?inFile = "[\<lparr>strField = ''XZ'', coefField = Some 1, paramField = Some 5\<rparr>,
         \<lparr>strField = ''YX'', coefField = Some 2, paramField = Some 0\<rparr>]"
  let ?bad = "[\<lparr>strField = ''XZ'', coefField = Some 1, paramField = Some 5\<rparr>,
         \<lparr>strField = ''X'', coefField = Some 2, paramField = Some 1\<rparr>]"
  let ?p = "\<lambda>b. \<lparr>numberQubits = 2, mup = ''0.5*'',
          operators = [\<lparr>index = 1, strRep = ''XZ'', intOp = [], coef = 1, param = 5\<rparr>,
                       \<lparr>index = 2, strRep = ''YX'', intOp = [], coef = 2, param = 2\<rparr>],
          openmp = b\<rparr>"
  have perm: "mset (rev xs) = mset xs" for xs :: "QuantumOperator list"
    by simp
  have loadS: "readLines ?inFile (case None of
        Some m \<Rightarrow> (newParser (0, False))\<lparr>mup := to_string natPrinters m @ ''*''\<rparr>
      | None \<Rightarrow> newParser (0, False)) = Inr (?p False)"
    using load_two [of False] by (simp add: newParser_openmp)
  have loadP: "readLines ?inFile (case None of
        Some m \<Rightarrow> (newParser (0, False))\<lparr>openmp := True, mup := to_string natPrinters m @ ''*''\<rparr>
      | None \<Rightarrow> (newParser (0, False))\<lparr>openmp := True\<rparr>) = Inr (?p True)"
    using load_two [of True] by simp
  have seq: "parseCircuitSeq natPrinters rev (0, False) ?inFile 3 None None =
      Inr (version3Header 2 @ ''\<newline>// New operator from line 1\<newline>ry(pi/2) q[0];\<newline>cx q[0], q[1];\<newline>rz(0.5*1*$[5]) q[1];\<newline>cx q[0], q[1];\<newline>ry(-pi/2) q[0];\<newline>\<newline>// New operator from line 2\<newline>ry(pi/2) q[1];\<newline>rx(-pi/2) q[0];\<newline>cx q[0], q[1];\<newline>rz(0.5*2*$[2]) q[1];\<newline>cx q[0], q[1];\<newline>rx(pi/2) q[0];\<newline>ry(-pi/2) q[1];\<newline>'')"
    by (subst parseCircuitSeq_text [OF perm loadS])
      (simp_all add: pauliChars_def block_XZ block_YX)
  have par: "parseCircuit natPrinters rev (0, False) ?inFile True 3 None None =
      Inr (version3Header 2 @ ''\<newline>// New operator from line 1\<newline>ry(pi/2) q[0];\<newline>cx q[0], q[1];\<newline>rz(0.5*1*$[5]) q[1];\<newline>cx q[0], q[1];\<newline>ry(-pi/2) q[0];\<newline>\<newline>// New operator from line 2\<newline>ry(pi/2) q[1];\<newline>rx(-pi/2) q[0];\<newline>cx q[0], q[1];\<newline>rz(0.5*2*$[2]) q[1];\<newline>cx q[0], q[1];\<newline>rx(pi/2) q[0];\<newline>ry(-pi/2) q[1];\<newline>\<newline>// New operator from line 1\<newline>ry(pi/2) q[0];\<newline>cx q[0], q[1];\<newline>rz(0.5*1*$[5]) q[1];\<newline>cx q[0], q[1];\<newline>ry(-pi/2) q[0];\<newline>\<newline>// New operator from line 2\<newline>ry(pi/2) q[1];\<newline>rx(-pi/2) q[0];\<newline>cx q[0], q[1];\<newline>rz(0.5*2*$[2]) q[1];\<newline>cx q[0], q[1];\<newline>rx(pi/2) q[0];\<newline>ry(-pi/2) q[1];\<newline>'')"
    by (subst parseCircuit_text [OF perm loadP])
      (simp_all add: pauliChars_def block_XZ block_YX)
  have load: "readLines ?inFile (newParser (0, False)) = Inr (?p False)"
    using load_two [of False] by (simp add: newParser_openmp)
  have emp: "operators (newParser (0, False)) = []"
    by (simp add: newParser_def)
  have first: "readLines (take 1 ?bad) (newParser (0, False)) =
      Inr \<lparr>numberQubits = 2, mup = ''0.5*'',
           operators = [\<lparr>index = 1, strRep = ''XZ'', intOp = [], coef = 1, param = 5\<rparr>],
           openmp = False\<rparr>"
    by (simp add: readLines_def extractLine_def errorCheck_def ULONG_MAX_def newParser_def)
  have ex: "extractLine (?bad ! 1) = Some (''X'', 2, 1)"
    by (simp add: extractLine_def)
  have len: "length ''X'' \<noteq> length (strField (hd ?bad))"
    by simp
  have k: "(0::nat) < 1" "1 < length ?bad"
    by simp_all
  have ne: "?inFile \<noteq> []"
    by simp
  from header_and_width [of ?inFile natPrinters rev "(0, False)" 3 None None
      "version3Header 2 @ ''\<newline>// New operator from line 1\<newline>ry(pi/2) q[0];\<newline>cx q[0], q[1];\<newline>rz(0.5*1*$[5]) q[1];\<newline>cx q[0], q[1];\<newline>ry(-pi/2) q[0];\<newline>\<newline>// New operator from line 2\<newline>ry(pi/2) q[1];\<newline>rx(-pi/2) q[0];\<newline>cx q[0], q[1];\<newline>rz(0.5*2*$[2]) q[1];\<newline>cx q[0], q[1];\<newline>rx(pi/2) q[0];\<newline>ry(-pi/2) q[1];\<newline>''" True
      "version3Header 2 @ ''\<newline>// New operator from line 1\<newline>ry(pi/2) q[0];\<newline>cx q[0], q[1];\<newline>rz(0.5*1*$[5]) q[1];\<newline>cx q[0], q[1];\<newline>ry(-pi/2) q[0];\<newline>\<newline>// New operator from line 2\<newline>ry(pi/2) q[1];\<newline>rx(-pi/2) q[0];\<newline>cx q[0], q[1];\<newline>rz(0.5*2*$[2]) q[1];\<newline>cx q[0], q[1];\<newline>rx(pi/2) q[0];\<newline>ry(-pi/2) q[1];\<newline>\<newline>// New operator from line 1\<newline>ry(pi/2) q[0];\<newline>cx q[0], q[1];\<newline>rz(0.5*1*$[5]) q[1];\<newline>cx q[0], q[1];\<newline>ry(-pi/2) q[0];\<newline>\<newline>// New operator from line 2\<newline>ry(pi/2) q[1];\<newline>rx(-pi/2) q[0];\<newline>cx q[0], q[1];\<newline>rz(0.5*2*$[2]) q[1];\<newline>cx q[0], q[1];\<newline>rx(pi/2) q[0];\<newline>ry(-pi/2) q[1];\<newline>''"
      "newParser (0, False)" "?p False" 1 ?bad "newParser (0, False)" _ "''X''" 2 1]
    seq par load emp first ex len k ne
  have "readLines ?bad (newParser (0, False)) =
      Inl (Exit (1 + 1) ''Non-matching length of string representation!'')"
    by blast
  moreover have "parseCircuitSeq natPrinters rev (0, False) ?inFile 2 None None =
      Inr (version2Header 2 @ ''\<newline>// New operator from line 1\<newline>ry(pi/2) q[0];\<newline>cx q[0], q[1];\<newline>rz(0.5*1*$[5]) q[1];\<newline>cx q[0], q[1];\<newline>ry(-pi/2) q[0];\<newline>\<newline>// New operator from line 2\<newline>ry(pi/2) q[1];\<newline>rx(-pi/2) q[0];\<newline>cx q[0], q[1];\<newline>rz(0.5*2*$[2]) q[1];\<newline>cx q[0], q[1];\<newline>rx(pi/2) q[0];\<newline>ry(-pi/2) q[1];\<newline>'')"
    by (subst parseCircuitSeq_text [OF perm loadS])
      (simp_all add: pauliChars_def block_XZ block_YX)
  ultimately show ?thesis
    using seq par by (simp add: version3Header_def version2Header_def dec.simps)
qed

text \<open>
  Claim C1, at the input file with the one line \<open>X 2.0 1\<close>: \<open>parseCircuit\<close> returns the
  header followed by the block of the record twice, with either backend. (The loop that
  appends the blocks runs once before the test of \<open>outFilename\<close> and once more after it;
  \<open>parseCircuitSeq\<close> has the second loop only.)
\<close>

theorem parseCircuit_repeats_blocks:
  "parseCircuit natPrinters (\<lambda>ys. ys) (0, False) [\<lparr>strField = ''X'', coefField = Some 2, paramField = Some 1\<rparr>] False 2 None None =
     Inr (version2Header 1 @ ''\<newline>// New operator from line 1\<newline>ry(pi/2) q[0];\<newline>rz(0.5*2*$[1]) q[0];\<newline>ry(-pi/2) q[0];\<newline>'' @ ''\<newline>// New operator from line 1\<newline>ry(pi/2) q[0];\<newline>rz(0.5*2*$[1]) q[0];\<newline>ry(-pi/2) q[0];\<newline>'')
   \<and> parseCircuit natPrinters (\<lambda>ys. ys) (0, False) [\<lparr>strField = ''X'', coefField = Some 2, paramField = Some 1\<rparr>] True 2 None None =
     Inr (version2Header 1 @ ''\<newline>// New operator from line 1\<newline>ry(pi/2) q[0];\<newline>rz(0.5*2*$[1]) q[0];\<newline>ry(-pi/2) q[0];\<newline>'' @ ''\<newline>// New operator from line 1\<newline>ry(pi/2) q[0];\<newline>rz(0.5*2*$[1]) q[0];\<newline>ry(-pi/2) q[0];\<newline>'')"
  by (simp add: parseCircuit_def newParser_def readLines_def extractLine_def errorCheck_def
      ULONG_MAX_def parseStrInt_def parseOpToQasm_def maxElem_def usub1_def cxLine_def
      natPrinters_fmt_2 dec.simps)

text \<open>
  Claim C9, at the same input: the text returned by \<open>parseCircuitSeq\<close> is not the text
  returned by \<open>parseCircuit\<close>, with either backend.
\<close>

theorem entry_points_differ:
  "parseCircuitSeq natPrinters (\<lambda>ys. ys) (0, False) [\<lparr>strField = ''X'', coefField = Some 2, paramField = Some 1\<rparr>] 2 None None
     \<noteq> parseCircuit natPrinters (\<lambda>ys. ys) (0, False) [\<lparr>strField = ''X'', coefField = Some 2, paramField = Some 1\<rparr>] True 2 None None
   \<and> parseCircuitSeq natPrinters (\<lambda>ys. ys) (0, False) [\<lparr>strField = ''X'', coefField = Some 2, paramField = Some 1\<rparr>] 2 None None
     \<noteq> parseCircuit natPrinters (\<lambda>ys. ys) (0, False) [\<lparr>strField = ''X'', coefField = Some 2, paramField = Some 1\<rparr>] False 2 None None"
  by (simp add: parseCircuitSeq_def parseCircuit_def newParser_def readLines_def extractLine_def
      errorCheck_def ULONG_MAX_def parseStrInt_def parseOpToQasm_def maxElem_def usub1_def
      cxLine_def natPrinters_fmt_2 dec.simps)

lemma positions_absent: "c \<notin> set s \<Longrightarrow> positions c s = []"
  by (auto simp: positions_def filter_empty_conv)

lemma all_identity_block:
  assumes "set s \<subseteq> {CHR ''I''}"
  shows "parseStrInt s = Inr [ [], [], []]"
    and "parseOpToQasm F p (qop\<lparr>intOp := [ [], [], []]\<rparr>) =
           Inr (renderAll [Comment (index qop),
                           Rz (mup p) (fmt_float F (coef qop)) (param qop) ULONG_MAX])"
proof -
  from assms have "set s \<subseteq> pauliChars"
    by (auto simp: pauliChars_def)
  moreover from assms have "CHR ''X'' \<notin> set s" "CHR ''Y'' \<notin> set s" "CHR ''Z'' \<notin> set s"
    by auto
  ultimately show dec: "parseStrInt s = Inr [ [], [], []]"
    by (simp add: parseStrInt_pauli positions_absent)
  show "parseOpToQasm F p (qop\<lparr>intOp := [ [], [], []]\<rparr>) =
           Inr (renderAll [Comment (index qop),
                           Rz (mup p) (fmt_float F (coef qop)) (param qop) ULONG_MAX])"
    unfolding parseOpToQasm_term [OF dec]
    by (simp add: termInstrs_def specBlock_def nonPivotLayers_def pivotBefore_def pivotAfter_def
        maxElem_def usub1_def)
qed

text \<open>
  Claim C3, at the input file with the one line \<open>I 1.0 1\<close>: compilation does not fail.
  It returns a text whose rotation is on qubit \<open>18446744073709551615\<close>, the value of
  \<open>lastUsed - 1\<close> at \<open>lastUsed = 0\<close>, in a program with a register of one qubit.
\<close>

theorem all_identity_term_compiles:
  "parseCircuitSeq natPrinters (\<lambda>ys. ys) (0, False) [\<lparr>strField = ''I'', coefField = Some 1, paramField = Some 1\<rparr>] 2 None None =
     Inr (version2Header 1 @ ''\<newline>// New operator from line 1\<newline>rz(0.5*1*$[1]) q[18446744073709551615];\<newline>'')"
  by (simp add: parseCircuitSeq_def newParser_def readLines_def extractLine_def errorCheck_def
      ULONG_MAX_def parseStrInt_def parseOpToQasm_def maxElem_def usub1_def cxLine_def
      natPrinters_fmt_1 dec.simps)

text \<open>
  Claim C8, at the input file with the one line \<open>X 1.0 18446744073709551616\<close>, whose raw
  parameter is above the largest \<open>unsigned long\<close>: loading ends in \<open>printError\<close> with
  the message \<open>Wrong format!\<close>. No input makes \<open>readLines\<close> report
  \<open>Parameter out of bound!\<close>.
\<close>

theorem out_of_bound_never_reported:
  "readLines [\<lparr>strField = ''X'', coefField = Some 1, paramField = Some 18446744073709551616\<rparr>] (newParser junk) = Inl (Exit 1 ''Wrong format!'')
   \<and> readLines inFile p0 \<noteq> Inl (Exit k ''Parameter out of bound!'')"
  using readLoop_never_out_of_bound [of inFile 0 p0 k]
  by (simp add: readLines_def extractLine_def printError_def)

text \<open>
  Claim C6, at an input file without lines (or one that cannot be opened), compiled twice
  with the same version and without a multiplier: the register width in the header is the
  value of the member \<open>numberQubits\<close>, which nothing has initialised, so that the two
  texts are the same only if the two runs find the same value there. Here the first run finds
  \<open>0\<close> and the second \<open>7\<close>.
\<close>

theorem empty_file_width_indeterminate:
  "parseCircuitSeq natPrinters (\<lambda>ys. ys) (0, False) [] 2 None None =
     Inr (''OPENQASM 2.0;\<newline>include '' @ [CHR 0x22] @ ''qelib1.inc'' @ [CHR 0x22] @ '';\<newline>qreg q[0];\<newline>creg c[0];\<newline>'')
   \<and> parseCircuitSeq natPrinters (\<lambda>ys. ys) (7, False) [] 2 None None =
     Inr (''OPENQASM 2.0;\<newline>include '' @ [CHR 0x22] @ ''qelib1.inc'' @ [CHR 0x22] @ '';\<newline>qreg q[7];\<newline>creg c[7];\<newline>'')
   \<and> parseCircuitSeq natPrinters (\<lambda>ys. ys) (0, False) [] 2 None None
     \<noteq> parseCircuitSeq natPrinters (\<lambda>ys. ys) (7, False) [] 2 None None"
  by (simp add: parseCircuitSeq_def newParser_def readLines_def version2Header_def dec.simps)

end
